theory Spec2Isabelle
  imports Main
begin

section \<open>Python string primitives used by the scripts\<close>

text \<open>
  A Python \<open>str\<close> is modelled as a \<open>string\<close>; one \<open>char\<close> stands for one code point
  below 256, so \<open>length\<close> is Python's \<open>len\<close> on such text.
\<close>

text \<open>\<open>str.isspace\<close> on one code point below 256.\<close>

definition is_space :: "char \<Rightarrow> bool" where
  "is_space c =
     (c \<in> {CHR 0x09, CHR 0x0A, CHR 0x0B, CHR 0x0C, CHR 0x0D, CHR 0x1C, CHR 0x1D, CHR 0x1E,
            CHR 0x1F, CHR '' '', CHR 0x85, CHR 0xA0})"

text \<open>\<open>s.strip()\<close>: whitespace removed at both ends.\<close>

definition strip :: "string \<Rightarrow> string" where
  "strip s = rev (dropWhile is_space (rev (dropWhile is_space s)))"

text \<open>\<open>s.split(d)\<close> for a one-character separator: always at least one piece.\<close>

fun split_on :: "char \<Rightarrow> string \<Rightarrow> string list" where
  "split_on d [] = [[]]"
| "split_on d (c # cs) =
     (let r = split_on d cs in if c = d then [] # r else (c # hd r) # tl r)"

text \<open>\<open>d.join(parts)\<close> for a one-character separator.\<close>

fun join_with :: "char \<Rightarrow> string list \<Rightarrow> string" where
  "join_with d [] = []"
| "join_with d [p] = p"
| "join_with d (p # q # ps) = p @ d # join_with d (q # ps)"

section \<open>scripts/fix_1s_timestamps.py\<close>

text \<open>
  Lines 61-64 of \<open>main\<close>: the rewrite of \<open>parts[0]\<close>. \<open>timestamp[:-3]\<close> keeps the
  first \<open>len - 3\<close> characters.
\<close>

definition reconcile :: "string \<Rightarrow> string" where
  "reconcile timestamp =
     (if length timestamp = 16 then take (length timestamp - 3) timestamp else timestamp)"

record fix_state =
  total_lines :: nat
  fixed_lines :: nat
  fix_outfile :: "string list"

text \<open>
  One iteration of the loop over \<open>infile\<close> (lines 45-71); every \<open>outfile.write\<close>
  appends one element to \<open>fix_outfile\<close>.
\<close>

definition fix_line :: "fix_state \<Rightarrow> string \<Rightarrow> fix_state" where
  "fix_line st line =
     (let st1 = st\<lparr>total_lines := total_lines st + 1\<rparr> in
      if total_lines st1 = 1 then st1\<lparr>fix_outfile := fix_outfile st1 @ [line]\<rparr>
      else
        let parts = split_on CHR '','' (strip line) in
        if length parts \<ge> 6 then
          let timestamp = hd parts;
              st2 = (if length timestamp = 16
                     then st1\<lparr>fixed_lines := fixed_lines st1 + 1\<rparr> else st1)
          in st2\<lparr>fix_outfile :=
                   fix_outfile st2 @ [join_with CHR '','' (reconcile timestamp # tl parts) @ ''\<newline>'']\<rparr>
        else st1\<lparr>fix_outfile := fix_outfile st1 @ [line]\<rparr>)"

definition fix_main :: "string list \<Rightarrow> fix_state" where
  "fix_main infile = foldl fix_line \<lparr>total_lines = 0, fixed_lines = 0, fix_outfile = []\<rparr> infile"

section \<open>Archives\<close>

text \<open>
  What \<open>zipfile\<close> shows of one archive. A member has its name in \<open>namelist()\<close>, the text
  that reading it yields, and a flag saying that the read raises once that text has been
  delivered (undecodable bytes, a failed checksum). An archive that \<open>ZipFile(...)\<close>
  cannot open at all is \<open>BadZipFile\<close>. An archive is paired with \<open>zip_path.name\<close>.
\<close>

record member =
  mname :: string
  mdata :: string
  broken :: bool

datatype zip = BadZipFile | ZipFile "member list"

type_synonym archive = "string \<times> zip"

text \<open>\<open>s.endswith(suffix)\<close>.\<close>

definition endswith :: "string \<Rightarrow> string \<Rightarrow> bool" where
  "endswith s suffix = (take (length suffix) (rev s) = rev suffix)"

text \<open>\<open>[f for f in zf.namelist() if f.endswith(".csv")]\<close>.\<close>

definition csv_files :: "member list \<Rightarrow> string list" where
  "csv_files ms = filter (\<lambda>f. endswith f ''.csv'') (map mname ms)"

text \<open>
  \<open>zf.open(name)\<close>: of several members with one name the archive's directory keeps the
  last; \<open>None\<close> is the \<open>KeyError\<close> for a name that is not there.
\<close>

definition zf_open :: "member list \<Rightarrow> string \<Rightarrow> member option" where
  "zf_open ms name =
     (case filter (\<lambda>m. mname m = name) ms of [] \<Rightarrow> None | m # rest \<Rightarrow> Some (last (m # rest)))"

text \<open>
  Iterating over an open binary file: pieces that end with the newline character, and a
  last piece without one when the file does not end with a newline.
\<close>

fun iter_lines :: "string \<Rightarrow> string \<Rightarrow> string list" where
  "iter_lines cur [] = (if cur = [] then [] else [cur])"
| "iter_lines cur (c # cs) =
     (if c = CHR 0x0A then (cur @ [c]) # iter_lines [] cs else iter_lines (cur @ [c]) cs)"

section \<open>scripts/convert_1s_streaming.py\<close>

datatype message =
  NoCsvFound string
  | FileDone string nat nat
  | FileError string

record stream_state =
  outfile :: "string list"
  total_candles :: nat
  last_timestamp :: "string option"
  duplicates_skipped :: nat
  file_candles :: nat
  file_duplicates :: nat
  stdout :: "message list"

text \<open>
  The body of \<open>for line in csv_file\<close> (lines 93-112); a write appends one element to
  \<open>outfile\<close>.
\<close>

definition stream_line :: "stream_state \<Rightarrow> string \<Rightarrow> stream_state" where
  "stream_line st raw =
     (let line = strip raw in
      if line = [] then st
      else
        let parts = split_on CHR '','' line in
        if length parts \<ge> 6 then
          let timestamp = parts ! 0 in
          if Some timestamp = last_timestamp st
          then st\<lparr>file_duplicates := file_duplicates st + 1\<rparr>
          else st\<lparr>last_timestamp := Some timestamp,
                  outfile := outfile st @
                    [parts ! 0 @ '','' @ parts ! 1 @ '','' @ parts ! 2 @ '','' @ parts ! 3 @ '','' @
                     parts ! 4 @ '','' @ parts ! 5 @ ''\<newline>''],
                  file_candles := file_candles st + 1\<rparr>
        else st)"

text \<open>
  The body of the loop over \<open>zip_files\<close> (lines 76-135). An exception leaves what was
  written and \<open>last_timestamp\<close> as they are and skips the two totals.
\<close>

definition stream_archive :: "stream_state \<Rightarrow> archive \<Rightarrow> stream_state" where
  "stream_archive st z =
     (let name = fst z;
          st0 = st\<lparr>file_candles := 0, file_duplicates := 0\<rparr> in
      case snd z of
        BadZipFile \<Rightarrow> st0\<lparr>stdout := stdout st0 @ [FileError name]\<rparr>
      | ZipFile ms \<Rightarrow>
          if csv_files ms = [] then st0\<lparr>stdout := stdout st0 @ [NoCsvFound name]\<rparr>
          else
            (case zf_open ms (csv_files ms ! 0) of
               None \<Rightarrow> st0\<lparr>stdout := stdout st0 @ [FileError name]\<rparr>
             | Some csv_file \<Rightarrow>
                 let st1 = foldl stream_line st0 (iter_lines [] (mdata csv_file)) in
                 if broken csv_file then st1\<lparr>stdout := stdout st1 @ [FileError name]\<rparr>
                 else
                   let st2 = st1\<lparr>total_candles := total_candles st1 + file_candles st1,
                                 duplicates_skipped := duplicates_skipped st1 + file_duplicates st1\<rparr>
                   in st2\<lparr>stdout := stdout st2 @
                            [FileDone name (file_candles st2) (total_candles st2)]\<rparr>))"

definition stream_init :: stream_state where
  "stream_init =
     \<lparr>outfile = [''timestamp,open,high,low,close,volume\<newline>''], total_candles = 0,
      last_timestamp = None, duplicates_skipped = 0, file_candles = 0, file_duplicates = 0,
      stdout = []\<rparr>"

text \<open>
  \<open>main\<close>: the argument is \<open>None\<close> when the directory does not exist, else the
  archives in the order \<open>sorted(RAW_DATA_DIR.glob("*.zip"))\<close> gives them. The exit code 1
  is \<open>Inl\<close>; \<open>Inr\<close> carries the state at \<open>return 0\<close>.
\<close>

datatype exit1 = DirectoryNotFound | NoZipFiles

definition stream_main :: "archive list option \<Rightarrow> exit1 + stream_state" where
  "stream_main dir =
     (case dir of
        None \<Rightarrow> Inl DirectoryNotFound
      | Some zip_files \<Rightarrow>
          if length zip_files = 0 then Inl NoZipFiles
          else Inr (foldl stream_archive stream_init zip_files))"

section \<open>Python's \<open>int\<close> on a string\<close>

definition is_digit :: "char \<Rightarrow> bool" where
  "is_digit c = (48 \<le> (of_char c :: nat) \<and> (of_char c :: nat) \<le> 57)"

definition digit_val :: "char \<Rightarrow> nat" where
  "digit_val c = of_char c - 48"

text \<open>The digits after the first one; a single underscore may stand between two digits.\<close>

fun digits_value :: "nat \<Rightarrow> string \<Rightarrow> nat option" where
  "digits_value acc [] = Some acc"
| "digits_value acc [c] = (if is_digit c then Some (10 * acc + digit_val c) else None)"
| "digits_value acc (c # d # ds) =
     (if is_digit c then digits_value (10 * acc + digit_val c) (d # ds)
      else if c = CHR ''_'' \<and> is_digit d then digits_value (10 * acc + digit_val d) ds
      else None)"

definition py_digits :: "string \<Rightarrow> nat option" where
  "py_digits s =
     (case s of [] \<Rightarrow> None
      | c # cs \<Rightarrow> if is_digit c then digits_value (digit_val c) cs else None)"

text \<open>
  The whitespace that \<open>int\<close> ignores around the number: unlike \<open>str.strip\<close> it does not
  take the separators U+001C to U+001F for whitespace.
\<close>

definition int_space :: "char \<Rightarrow> bool" where
  "int_space c =
     (c \<in> {CHR 0x09, CHR 0x0A, CHR 0x0B, CHR 0x0C, CHR 0x0D, CHR '' '', CHR 0x85, CHR 0xA0})"

text \<open>
  \<open>int(s)\<close>: surrounding whitespace is ignored, then an optional sign, then digits;
  \<open>None\<close> is the \<open>ValueError\<close>, which a text of more than 4300 digits raises as well
  (the interpreter's default limit for the conversion).
\<close>

definition py_int :: "string \<Rightarrow> int option" where
  "py_int s =
     (case rev (dropWhile int_space (rev (dropWhile int_space s))) of
        [] \<Rightarrow> None
      | c # cs \<Rightarrow>
          if int (length (filter is_digit (c # cs))) > 4300 then None
          else if c = CHR ''-'' then map_option (\<lambda>n. - int n) (py_digits cs)
          else if c = CHR ''+'' then map_option int (py_digits cs)
          else map_option int (py_digits (c # cs)))"

section \<open>scripts/convert_all_data.py\<close>

type_synonym row = "string list"

text \<open>Lines 89-102: the row that one line contributes, if any.\<close>

definition row_of_line :: "string \<Rightarrow> row option" where
  "row_of_line line =
     (if line = [] then None
      else
        let parts = split_on CHR '','' line in
        if length parts \<ge> 6
        then Some [parts ! 0, parts ! 1, parts ! 2, parts ! 3, parts ! 4, parts ! 5]
        else None)"

text \<open>Lines 87-102: the rows of one decoded file.\<close>

definition extract_rows :: "string \<Rightarrow> row list" where
  "extract_rows content = List.map_filter row_of_line (split_on CHR 0x0A (strip content))"

record collect_state =
  all_rows :: "row list"
  processed_files :: nat
  stderr :: "string list"

text \<open>The body of the loop over \<open>zip_files\<close> (lines 78-105).\<close>

definition collect_archive :: "collect_state \<Rightarrow> archive \<Rightarrow> collect_state" where
  "collect_archive st z =
     (let name = fst z in
      case snd z of
        BadZipFile \<Rightarrow> st\<lparr>stderr := stderr st @ [name]\<rparr>
      | ZipFile ms \<Rightarrow>
          if csv_files ms = [] then st
          else
            (case zf_open ms (csv_files ms ! 0) of
               None \<Rightarrow> st\<lparr>stderr := stderr st @ [name]\<rparr>
             | Some csv_file \<Rightarrow>
                 if broken csv_file then st\<lparr>stderr := stderr st @ [name]\<rparr>
                 else st\<lparr>all_rows := all_rows st @ extract_rows (mdata csv_file),
                         processed_files := processed_files st + 1\<rparr>))"

text \<open>
  \<open>all_rows.sort(key=lambda x: int(x[0]))\<close>: the keys are computed first, and a key that
  does not parse raises \<open>ValueError\<close> (\<open>None\<close>); the sort is stable.
\<close>

definition sort_rows :: "row list \<Rightarrow> row list option" where
  "sort_rows rows =
     (if list_all (\<lambda>x. py_int (x ! 0) \<noteq> None) rows
      then Some (sort_key (\<lambda>x. the (py_int (x ! 0))) rows)
      else None)"

text \<open>Lines 118-124: the loop with \<open>seen_timestamps\<close> and \<open>unique_rows\<close>.\<close>

fun remove_duplicates :: "string set \<Rightarrow> row list \<Rightarrow> row list \<Rightarrow> row list" where
  "remove_duplicates seen_timestamps unique_rows [] = unique_rows"
| "remove_duplicates seen_timestamps unique_rows (row # rest) =
     (let ts = row ! 0 in
      if ts \<notin> seen_timestamps
      then remove_duplicates (insert ts seen_timestamps) (unique_rows @ [row]) rest
      else remove_duplicates seen_timestamps unique_rows rest)"

datatype result =
  Error string
  | Success (files_processed: nat) (candles: nat) (written: "row list")

datatype py_error = ValueError

text \<open>
  Lines 107-140 on the collected rows. \<open>written\<close> is the rows handed to the csv writer
  after the header row; the uncaught \<open>ValueError\<close> of the sort is \<open>Inl\<close>.
\<close>

definition sort_and_write :: "nat \<Rightarrow> row list \<Rightarrow> py_error + result" where
  "sort_and_write processed rows =
     (if rows = [] then Inr (Error ''No data extracted'')
      else
        (case sort_rows rows of
           None \<Rightarrow> Inl ValueError
         | Some sorted_rows \<Rightarrow>
             let unique_rows = remove_duplicates {} [] sorted_rows in
             Inr (Success processed (length unique_rows) unique_rows)))"

text \<open>The loop over \<open>zip_files\<close> (lines 75-105).\<close>

definition collect :: "archive list \<Rightarrow> collect_state" where
  "collect zip_files =
     foldl collect_archive \<lparr>all_rows = [], processed_files = 0, stderr = []\<rparr> zip_files"

text \<open>
  \<open>convert_timeframe\<close>: the argument is \<open>None\<close> when \<open>tf_dir\<close> does not exist, else the
  archives in sorted order.
\<close>

definition convert_timeframe :: "archive list option \<Rightarrow> py_error + result" where
  "convert_timeframe tf_dir =
     (case tf_dir of
        None \<Rightarrow> Inr (Error ''Directory not found'')
      | Some zip_files \<Rightarrow>
          if zip_files = [] then Inr (Error ''No zip files found'')
          else
            let st = collect zip_files
            in sort_and_write (processed_files st) (all_rows st))"

section \<open>data/convert_binance_to_zigquant.py\<close>

text \<open>Lines 50-57: the converted line that one line contributes, if any.\<close>

definition convert_line :: "string \<Rightarrow> string option" where
  "convert_line line =
     (if strip line = [] then None
      else
        let fields = split_on CHR '','' line in
        if length fields \<ge> 6 then Some (join_with CHR '','' (take 6 fields)) else None)"

text \<open>Lines 45-57: the converted lines of one decoded file.\<close>

definition extract_lines :: "string \<Rightarrow> string list" where
  "extract_lines content = List.map_filter convert_line (split_on CHR 0x0A (strip content))"

text \<open>The body of the loop over \<open>zip_files\<close> (lines 29-63), on \<open>all_lines\<close>.\<close>

definition gather_archive :: "string list \<Rightarrow> archive \<Rightarrow> string list" where
  "gather_archive all_lines z =
     (case snd z of
        BadZipFile \<Rightarrow> all_lines
      | ZipFile ms \<Rightarrow>
          if csv_files ms = [] then all_lines
          else
            (case zf_open ms (csv_files ms ! 0) of
               None \<Rightarrow> all_lines
             | Some f \<Rightarrow> if broken f then all_lines else all_lines @ extract_lines (mdata f)))"

definition sort_lines :: "string list \<Rightarrow> string list option" where
  "sort_lines ls =
     (if list_all (\<lambda>x. py_int (split_on CHR '','' x ! 0) \<noteq> None) ls
      then Some (sort_key (\<lambda>x. the (py_int (split_on CHR '','' x ! 0))) ls)
      else None)"

text \<open>
  \<open>convert_binance_to_zigquant\<close>: the returned flag and what is written to
  \<open>output_file\<close> (nothing when the flag is \<open>False\<close>).
\<close>

definition convert_binance_to_zigquant :: "archive list \<Rightarrow> py_error + bool \<times> string list" where
  "convert_binance_to_zigquant zip_files =
     (if zip_files = [] then Inr (False, [])
      else
        let all_lines = foldl gather_archive [] zip_files in
        if all_lines = [] then Inr (False, [])
        else
          (case sort_lines all_lines of
             None \<Rightarrow> Inl ValueError
           | Some sorted_lines \<Rightarrow>
               Inr (True, ''timestamp,open,high,low,close,volume\<newline>'' #
                          map (\<lambda>line. line @ ''\<newline>'') sorted_lines)))"

section \<open>scripts/download_all_timeframes.py\<close>

text \<open>
  What one request does: the whole body arrives (\<open>Body\<close>); the connection ends before the
  body is complete and \<open>response.read\<close> returns the empty block without raising
  (\<open>Truncated\<close>, with the part received); \<open>urlopen\<close> raises \<open>HTTPError\<close> with a status
  code; or anything else is raised (\<open>Failure\<close>), before the local file is opened (\<open>None\<close>)
  or after part of the body was written to it.
\<close>

datatype response = Body string | Truncated string | HTTPError nat | Failure "string option"

record download_state =
  saved :: "string option"
  requests :: nat
  sleeps :: "nat list"

text \<open>
  The loop of \<open>download_file\<close> over the remaining values of \<open>attempt\<close>. \<open>saved\<close> is the
  file at \<open>save_path\<close>, \<open>requests\<close> counts the calls of \<open>urlopen\<close>, \<open>sleeps\<close> lists the
  arguments of \<open>time.sleep\<close>; \<open>net attempt\<close> is what the request of that attempt does.
\<close>

fun download_attempts ::
  "(nat \<Rightarrow> response) \<Rightarrow> nat \<Rightarrow> nat list \<Rightarrow> download_state \<Rightarrow> bool \<times> download_state" where
  "download_attempts net max_retries [] st = (False, st)"
| "download_attempts net max_retries (attempt # rest) st =
     (let st1 = st\<lparr>requests := requests st + 1\<rparr> in
      case net attempt of
        Body b \<Rightarrow> (True, st1\<lparr>saved := Some b\<rparr>)
      | Truncated b \<Rightarrow> (True, st1\<lparr>saved := Some b\<rparr>)
      | HTTPError code \<Rightarrow>
          if code = 404 then (False, st1) else download_attempts net max_retries rest st1
      | Failure partial \<Rightarrow>
          let st2 = (case partial of None \<Rightarrow> st1 | Some p \<Rightarrow> st1\<lparr>saved := Some p\<rparr>);
              st3 = (if int attempt < int max_retries - 1
                     then st2\<lparr>sleeps := sleeps st2 @ [2 ^ attempt]\<rparr> else st2)
          in download_attempts net max_retries rest st3)"

definition download_file :: "(nat \<Rightarrow> response) \<Rightarrow> nat \<Rightarrow> download_state \<Rightarrow> bool \<times> download_state" where
  "download_file net max_retries st = download_attempts net max_retries [0..<max_retries] st"

record timeframe_state =
  files :: "string \<rightharpoonup> string"
  downloaded :: nat
  skipped :: nat
  failed :: nat
  printed :: "string list"

text \<open>
  The body of the loops of \<open>download_timeframe\<close> for one \<open>filename\<close> (lines 111-132), with
  the default \<open>max_retries\<close>; \<open>net filename\<close> is the remote side for that file's URL. The
  second component is what the iteration did outside the script's variables: the file at
  \<open>save_path\<close> when it ends, the requests it made and the sleeps it took.
\<close>

definition fetch_one ::
  "(string \<Rightarrow> nat \<Rightarrow> response) \<Rightarrow> timeframe_state \<Rightarrow> string
     \<Rightarrow> timeframe_state \<times> download_state" where
  "fetch_one net st filename =
     (let w = \<lparr>saved = files st filename, requests = 0, sleeps = []\<rparr> in
      if files st filename \<noteq> None then (st\<lparr>skipped := skipped st + 1\<rparr>, w)
      else
        let r = download_file (net filename) 3 w
        in if fst r
           then (st\<lparr>files := (files st)(filename := saved (snd r)),
                    downloaded := downloaded st + 1, printed := printed st @ [''OK'']\<rparr>,
                 snd r)
           else (st\<lparr>files := (files st)(filename := None),
                    failed := failed st + 1, printed := printed st @ [''Not found'']\<rparr>,
                 (snd r)\<lparr>saved := None\<rparr>))"

text \<open>The same iteration, on the script's variables and the files alone.\<close>

definition download_one ::
  "(string \<Rightarrow> nat \<Rightarrow> response) \<Rightarrow> timeframe_state \<Rightarrow> string \<Rightarrow> timeframe_state" where
  "download_one net st filename = fst (fetch_one net st filename)"

text \<open>
  The responses after which \<open>download_file\<close> goes on to the next attempt, and those of
  them after which it sleeps first (line 78 to 81).
\<close>

fun retried :: "response \<Rightarrow> bool" where
  "retried (Failure partial) = True"
| "retried (HTTPError code) = (code \<noteq> 404)"
| "retried (Body b) = False"
| "retried (Truncated b) = False"

fun raised_other :: "response \<Rightarrow> bool" where
  "raised_other (Failure partial) = True"
| "raised_other (HTTPError code) = False"
| "raised_other (Body b) = False"
| "raised_other (Truncated b) = False"

section \<open>Timestamp reconciliation\<close>

lemma split_on_nonempty: "split_on d s \<noteq> []"
  by (induction s) (auto simp: Let_def)

text \<open>
  C3. The reconciler drops the last three characters of a timestamp text of length 16 and
  returns every text of another length unchanged; the two sample values of the
  specification come out as stated.
\<close>

theorem reconcile_rule:
  "(length x = 16 \<longrightarrow> reconcile x = take 13 x \<and> length (reconcile x) = 13 \<and>
      reconcile x @ drop 13 x = x \<and> length (drop 13 x) = 3)
   \<and> (length x \<noteq> 16 \<longrightarrow> reconcile x = x)
   \<and> reconcile ''1735689600000000'' = ''1735689600000''
   \<and> reconcile ''1706147569000'' = ''1706147569000''"
  by (simp add: reconcile_def)

theorem reconcile_rule_witness:
  "length ''1735689600000000'' = 16 \<and> reconcile ''1735689600000000'' = take 13 ''1735689600000000''
   \<and> length ''42'' \<noteq> 16 \<and> reconcile ''42'' = ''42''"
  using reconcile_rule [of "''1735689600000000''"] reconcile_rule [of "''42''"]
  by simp

text \<open>
  C9. Reconciling twice is the same as reconciling once, and a text of 13 characters is a
  fixed point.
\<close>

theorem reconcile_idempotent:
  "reconcile (reconcile x) = reconcile x \<and> (length x = 13 \<longrightarrow> reconcile x = x)"
  by (simp add: reconcile_def)

theorem reconcile_idempotent_witness:
  "reconcile (reconcile ''1735689600000000'') = reconcile ''1735689600000000''
   \<and> length ''1706147569000'' = 13 \<and> reconcile ''1706147569000'' = ''1706147569000''"
  using reconcile_idempotent [of "''1735689600000000''"] reconcile_idempotent [of "''1706147569000''"]
  by simp


section \<open>Splitting and joining\<close>

lemma split_on_no_sep: "d \<notin> set s \<Longrightarrow> split_on d s = [s]"
  by (induction s) (auto simp: Let_def)

lemma split_on_append_sep: "d \<notin> set p \<Longrightarrow> split_on d (p @ d # r) = p # split_on d r"
  by (induction p) (auto simp: Let_def)

lemma split_on_join:
  "ps \<noteq> [] \<Longrightarrow> \<forall>p\<in>set ps. d \<notin> set p \<Longrightarrow> split_on d (join_with d ps) = ps"
  by (induction d ps rule: join_with.induct) (auto simp: split_on_no_sep split_on_append_sep)

lemma split_on_pieces: "p \<in> set (split_on d s) \<Longrightarrow> d \<notin> set p"
proof (induction s arbitrary: p)
  case Nil
  then show ?case by simp
next
  case (Cons c cs)
  obtain r rs where r: "split_on d cs = r # rs"
    using split_on_nonempty [of d cs] by (cases "split_on d cs") auto
  show ?case
  proof (cases "c = d")
    case True
    with Cons r show ?thesis by (auto simp: Let_def)
  next
    case False
    with Cons.prems r have "p = c # r \<or> p \<in> set rs" by (auto simp: Let_def)
    with Cons.IH r False show ?thesis by auto
  qed
qed

lemma join_split: "join_with d (split_on d s) = s"
proof (induction s)
  case Nil
  then show ?case by simp
next
  case (Cons c cs)
  obtain r rs where r: "split_on d cs = r # rs"
    using split_on_nonempty [of d cs] by (cases "split_on d cs") auto
  with Cons show ?case by (cases rs) (auto simp: Let_def)
qed

lemma split_on_length_sep: "2 \<le> length (split_on d s) \<Longrightarrow> d \<in> set s"
  using split_on_no_sep [of d s] by (cases "d \<in> set s") auto

lemma strip_eq_Nil: "strip s = [] \<longleftrightarrow> (\<forall>c\<in>set s. is_space c)"
proof
  assume "strip s = []"
  then have a: "\<forall>c\<in>set (dropWhile is_space s). is_space c"
    by (simp add: strip_def dropWhile_eq_Nil_conv)
  show "\<forall>c\<in>set s. is_space c"
  proof (cases "dropWhile is_space s")
    case Nil
    then show ?thesis by (simp add: dropWhile_eq_Nil_conv)
  next
    case (Cons x xs)
    then have "\<not> is_space x" using hd_dropWhile [of is_space s] by simp
    with a Cons show ?thesis by simp
  qed
next
  assume "\<forall>c\<in>set s. is_space c"
  then show "strip s = []" by (auto simp: strip_def dest: set_dropWhileD)
qed

lemma take6: "6 \<le> length ps \<Longrightarrow> take 6 ps = [ps ! 0, ps ! 1, ps ! 2, ps ! 3, ps ! 4, ps ! 5]"
  by (auto simp: numeral_eq_Suc Suc_le_length_iff)

lemma fstring6:
  "6 \<le> length ps \<Longrightarrow>
   ps ! 0 @ '','' @ ps ! 1 @ '','' @ ps ! 2 @ '','' @ ps ! 3 @ '','' @ ps ! 4 @ '','' @ ps ! 5 @ t
     = join_with CHR '','' (take 6 ps) @ t"
  by (simp add: take6)

lemma comma_not_space: "\<not> is_space CHR '',''"
  by (simp add: is_space_def)


lemma stream_line_short:
  "length (split_on CHR '','' (strip raw)) < 6 \<Longrightarrow> stream_line st raw = st"
  by (simp add: stream_line_def Let_def)

lemma stream_line_dup:
  "6 \<le> length (split_on CHR '','' (strip raw)) \<Longrightarrow>
   last_timestamp st = Some (split_on CHR '','' (strip raw) ! 0) \<Longrightarrow>
   stream_line st raw = st\<lparr>file_duplicates := file_duplicates st + 1\<rparr>"
  by (auto simp: stream_line_def Let_def)

lemma stream_line_emit:
  assumes "6 \<le> length (split_on CHR '','' (strip raw))"
    and "last_timestamp st \<noteq> Some (split_on CHR '','' (strip raw) ! 0)"
  shows "stream_line st raw =
     st\<lparr>last_timestamp := Some (split_on CHR '','' (strip raw) ! 0),
        outfile := outfile st @ [join_with CHR '','' (take 6 (split_on CHR '','' (strip raw))) @ ''\<newline>''],
        file_candles := file_candles st + 1\<rparr>"
proof -
  have "strip raw \<noteq> []" using assms(1) by auto
  then show ?thesis
    using assms fstring6 [OF assms(1), of "''\<newline>''"]
    by (auto simp: stream_line_def Let_def)
qed

lemma row_of_line_take:
  assumes "6 \<le> length (split_on CHR '','' line)"
  shows "row_of_line line = Some (take 6 (split_on CHR '','' line))"
proof -
  have "line \<noteq> []" using assms by auto
  then show ?thesis using assms by (simp add: row_of_line_def take6 Let_def)
qed

lemma convert_line_take:
  assumes "6 \<le> length (split_on CHR '','' line)"
  shows "convert_line line = Some (join_with CHR '','' (take 6 (split_on CHR '','' line)))"
proof -
  have "CHR '','' \<in> set line" using assms by (intro split_on_length_sep) simp
  then have "strip line \<noteq> []" using comma_not_space by (auto simp: strip_eq_Nil)
  then show ?thesis using assms by (simp add: convert_line_def Let_def)
qed

lemma split_take_join:
  assumes "6 \<le> length (split_on d line)"
  shows "split_on d (join_with d (take 6 (split_on d line))) = take 6 (split_on d line)"
proof (rule split_on_join)
  show "take 6 (split_on d line) \<noteq> []" using assms by auto
  show "\<forall>p\<in>set (take 6 (split_on d line)). d \<notin> set p"
    using split_on_pieces by (auto dest: in_set_takeD)
qed

section \<open>Canonical projection\<close>

text \<open>
  C4. A line that splits into at least six fields on the comma yields, in
  \<open>convert_all_data.py\<close>, the row of its first six fields and, in
  \<open>convert_binance_to_zigquant.py\<close>, their join, which splits back into the same six
  fields; the fields are those of the line at positions 0 to 5, unchanged, and what follows
  them plays no part: a line joined from six comma-free fields and any further fields
  gives back the six.
\<close>

theorem canonical_projection:
  "(6 \<le> length (split_on CHR '','' line) \<longrightarrow>
      row_of_line line = Some (take 6 (split_on CHR '','' line))
    \<and> convert_line line = Some (join_with CHR '','' (take 6 (split_on CHR '','' line)))
    \<and> split_on CHR '','' (join_with CHR '','' (take 6 (split_on CHR '','' line)))
        = take 6 (split_on CHR '','' line)
    \<and> length (take 6 (split_on CHR '','' line)) = 6
    \<and> (\<forall>i<6. take 6 (split_on CHR '','' line) ! i = split_on CHR '','' line ! i))
   \<and> (length fs = 6 \<and> (\<forall>f\<in>set (fs @ extra). CHR '','' \<notin> set f) \<longrightarrow>
      row_of_line (join_with CHR '','' (fs @ extra)) = Some fs
    \<and> convert_line (join_with CHR '','' (fs @ extra)) = Some (join_with CHR '','' fs))"
proof (intro conjI impI)
  assume a: "6 \<le> length (split_on CHR '','' line)"
  show "row_of_line line = Some (take 6 (split_on CHR '','' line))"
    using a by (rule row_of_line_take)
  show "convert_line line = Some (join_with CHR '','' (take 6 (split_on CHR '','' line)))"
    using a by (rule convert_line_take)
  show "split_on CHR '','' (join_with CHR '','' (take 6 (split_on CHR '','' line)))
        = take 6 (split_on CHR '','' line)"
    using a by (rule split_take_join)
  show "length (take 6 (split_on CHR '','' line)) = 6" using a by simp
  show "\<forall>i<6. take 6 (split_on CHR '','' line) ! i = split_on CHR '','' line ! i" by simp
next
  assume b: "length fs = 6 \<and> (\<forall>f\<in>set (fs @ extra). CHR '','' \<notin> set f)"
  then have "fs @ extra \<noteq> []" by auto
  with b have s: "split_on CHR '','' (join_with CHR '','' (fs @ extra)) = fs @ extra"
    by (intro split_on_join) auto
  have l: "6 \<le> length (split_on CHR '','' (join_with CHR '','' (fs @ extra)))"
    using b by (simp add: s)
  show "row_of_line (join_with CHR '','' (fs @ extra)) = Some fs"
    using row_of_line_take [OF l] b by (simp add: s)
  show "convert_line (join_with CHR '','' (fs @ extra)) = Some (join_with CHR '','' fs)"
    using convert_line_take [OF l] b by (simp add: s)
qed

theorem canonical_projection_witness:
  "6 \<le> length (split_on CHR '','' ''1502942400000,4261.48,4280.56,4261.32,4261.45,11.30,1502942459999,48224.9,9,1.3,5552.1,0'')
   \<and> row_of_line ''1502942400000,4261.48,4280.56,4261.32,4261.45,11.30,1502942459999,48224.9,9,1.3,5552.1,0''
       = Some [''1502942400000'', ''4261.48'', ''4280.56'', ''4261.32'', ''4261.45'', ''11.30'']
   \<and> convert_line ''1502942400000,4261.48,4280.56,4261.32,4261.45,11.30,1502942459999,48224.9,9,1.3,5552.1,0''
       = Some ''1502942400000,4261.48,4280.56,4261.32,4261.45,11.30''
   \<and> length [''1'', ''2'', ''3'', ''4'', ''5'', ''6''] = 6
   \<and> row_of_line (join_with CHR '','' ([''1'', ''2'', ''3'', ''4'', ''5'', ''6''] @ [''7'', ''8''])) =
       Some [''1'', ''2'', ''3'', ''4'', ''5'', ''6'']"
  using canonical_projection [of "''1502942400000,4261.48,4280.56,4261.32,4261.45,11.30,1502942459999,48224.9,9,1.3,5552.1,0''"
      "[''1'', ''2'', ''3'', ''4'', ''5'', ''6'']" "[''7'', ''8'']"]
  by (simp add: Let_def)


section \<open>Streaming mode\<close>

text \<open>
  C1. In streaming mode a record (a line of at least six fields) is compared with
  \<open>last_timestamp\<close> only: when its timestamp equals it, the record is not written and the
  duplicate counter goes up by one; otherwise it is written and \<open>last_timestamp\<close> becomes
  its timestamp. Two archives with the timestamps 1, 1, 2 and 2, 3, 3, 4 give the output
  timestamps 1, 2, 3, 4 and 3 duplicates: the state survives the archive boundary.
\<close>

theorem streaming_dedup:
  "(6 \<le> length (split_on CHR '','' (strip raw)) \<longrightarrow>
      (last_timestamp st = Some (split_on CHR '','' (strip raw) ! 0) \<longrightarrow>
         stream_line st raw = st\<lparr>file_duplicates := file_duplicates st + 1\<rparr>)
    \<and> (last_timestamp st \<noteq> Some (split_on CHR '','' (strip raw) ! 0) \<longrightarrow>
         stream_line st raw =
           st\<lparr>last_timestamp := Some (split_on CHR '','' (strip raw) ! 0),
              outfile := outfile st @
                [join_with CHR '','' (take 6 (split_on CHR '','' (strip raw))) @ ''\<newline>''],
              file_candles := file_candles st + 1\<rparr>))
   \<and> stream_main (Some
        [(''BTCUSDT-1s-2017-08.zip'', ZipFile [\<lparr>mname = ''BTCUSDT-1s-2017-08.csv'',
            mdata = ''1,o,h,l,c,v\<newline>1,o,h,l,c,v\<newline>2,o,h,l,c,v\<newline>'', broken = False\<rparr>]),
         (''BTCUSDT-1s-2017-09.zip'', ZipFile [\<lparr>mname = ''BTCUSDT-1s-2017-09.csv'',
            mdata = ''2,o,h,l,c,v\<newline>3,o,h,l,c,v\<newline>3,o,h,l,c,v\<newline>4,o,h,l,c,v\<newline>'',
            broken = False\<rparr>])])
      = Inr \<lparr>outfile = [''timestamp,open,high,low,close,volume\<newline>'', ''1,o,h,l,c,v\<newline>'',
               ''2,o,h,l,c,v\<newline>'', ''3,o,h,l,c,v\<newline>'', ''4,o,h,l,c,v\<newline>''],
             total_candles = 4, last_timestamp = Some ''4'', duplicates_skipped = 3,
             file_candles = 2, file_duplicates = 2,
             stdout = [FileDone ''BTCUSDT-1s-2017-08.zip'' 2 2,
                       FileDone ''BTCUSDT-1s-2017-09.zip'' 2 4]\<rparr>"
proof (intro conjI impI)
  assume a: "6 \<le> length (split_on CHR '','' (strip raw))"
  {
    assume "last_timestamp st = Some (split_on CHR '','' (strip raw) ! 0)"
    with a show "stream_line st raw = st\<lparr>file_duplicates := file_duplicates st + 1\<rparr>"
      by (rule stream_line_dup)
  }
  {
    assume "last_timestamp st \<noteq> Some (split_on CHR '','' (strip raw) ! 0)"
    with a show "stream_line st raw =
           st\<lparr>last_timestamp := Some (split_on CHR '','' (strip raw) ! 0),
              outfile := outfile st @
                [join_with CHR '','' (take 6 (split_on CHR '','' (strip raw))) @ ''\<newline>''],
              file_candles := file_candles st + 1\<rparr>"
      by (rule stream_line_emit)
  }
next
  show "stream_main (Some
        [(''BTCUSDT-1s-2017-08.zip'', ZipFile [\<lparr>mname = ''BTCUSDT-1s-2017-08.csv'',
            mdata = ''1,o,h,l,c,v\<newline>1,o,h,l,c,v\<newline>2,o,h,l,c,v\<newline>'', broken = False\<rparr>]),
         (''BTCUSDT-1s-2017-09.zip'', ZipFile [\<lparr>mname = ''BTCUSDT-1s-2017-09.csv'',
            mdata = ''2,o,h,l,c,v\<newline>3,o,h,l,c,v\<newline>3,o,h,l,c,v\<newline>4,o,h,l,c,v\<newline>'',
            broken = False\<rparr>])])
      = Inr \<lparr>outfile = [''timestamp,open,high,low,close,volume\<newline>'', ''1,o,h,l,c,v\<newline>'',
               ''2,o,h,l,c,v\<newline>'', ''3,o,h,l,c,v\<newline>'', ''4,o,h,l,c,v\<newline>''],
             total_candles = 4, last_timestamp = Some ''4'', duplicates_skipped = 3,
             file_candles = 2, file_duplicates = 2,
             stdout = [FileDone ''BTCUSDT-1s-2017-08.zip'' 2 2,
                       FileDone ''BTCUSDT-1s-2017-09.zip'' 2 4]\<rparr>"
    by code_simp
qed

theorem streaming_dedup_witness:
  "6 \<le> length (split_on CHR '','' (strip ''7,o,h,l,c,v,x\<newline>''))
   \<and> last_timestamp (stream_init\<lparr>last_timestamp := Some ''7''\<rparr>)
       = Some (split_on CHR '','' (strip ''7,o,h,l,c,v,x\<newline>'') ! 0)
   \<and> stream_line (stream_init\<lparr>last_timestamp := Some ''7''\<rparr>) ''7,o,h,l,c,v,x\<newline>''
       = stream_init\<lparr>last_timestamp := Some ''7'', file_duplicates := 1\<rparr>
   \<and> last_timestamp stream_init \<noteq> Some (split_on CHR '','' (strip ''7,o,h,l,c,v,x\<newline>'') ! 0)
   \<and> stream_line stream_init ''7,o,h,l,c,v,x\<newline>''
       = stream_init\<lparr>last_timestamp := Some ''7'',
           outfile := outfile stream_init @ [''7,o,h,l,c,v\<newline>''], file_candles := 1\<rparr>"
  using streaming_dedup [of "''7,o,h,l,c,v,x\<newline>''" "stream_init\<lparr>last_timestamp := Some ''7''\<rparr>"]
    streaming_dedup [of "''7,o,h,l,c,v,x\<newline>''" stream_init]
  by (simp add: stream_init_def strip_def is_space_def Let_def)

section \<open>Short lines\<close>

text \<open>
  C5, as stated, fails: a line of fewer than six fields changes no counter at all. The
  state after such a line is the state before it, and a run over an archive that holds
  such a line ends in the same state, messages included, as a run over the archive
  without it.
\<close>

theorem short_line_uncounted:
  "stream_line stream_init ''1502942400000,4261.48,4280.56\<newline>'' = stream_init
   \<and> stream_main (Some [(''a.zip'', ZipFile [\<lparr>mname = ''a.csv'',
         mdata = ''1,2,3\<newline>4,o,h,l,c,v\<newline>'', broken = False\<rparr>])])
     = stream_main (Some [(''a.zip'', ZipFile [\<lparr>mname = ''a.csv'',
         mdata = ''4,o,h,l,c,v\<newline>'', broken = False\<rparr>])])"
  by code_simp

text \<open>
  C5, amended. A line of fewer than six fields is dropped: in streaming mode it leaves the
  whole state as it is (nothing is written and no counter changes) and the lines after it
  in the same archive are processed as if it were absent; in the two bulk scripts it
  contributes no row. No rejection count is kept.
\<close>

theorem short_line_dropped:
  "(length (split_on CHR '','' (strip raw)) < 6 \<longrightarrow>
      stream_line st raw = st
    \<and> foldl stream_line st (before @ raw # after) = foldl stream_line st (before @ after))
   \<and> (length (split_on CHR '','' line) < 6 \<longrightarrow>
      row_of_line line = None \<and> convert_line line = None)"
  by (simp add: stream_line_short row_of_line_def convert_line_def Let_def)

theorem short_line_dropped_witness:
  "length (split_on CHR '','' (strip ''1,2,3\<newline>'')) < 6
   \<and> stream_line stream_init ''1,2,3\<newline>'' = stream_init
   \<and> foldl stream_line stream_init ([''4,o,h,l,c,v\<newline>''] @ ''1,2,3\<newline>'' # [''5,o,h,l,c,v\<newline>''])
       = foldl stream_line stream_init ([''4,o,h,l,c,v\<newline>''] @ [''5,o,h,l,c,v\<newline>''])
   \<and> length (split_on CHR '','' ''1,2,3'') < 6
   \<and> row_of_line ''1,2,3'' = None \<and> convert_line ''1,2,3'' = None"
  using short_line_dropped [of "''1,2,3\<newline>''" stream_init "[''4,o,h,l,c,v\<newline>'']" "[''5,o,h,l,c,v\<newline>'']" "''1,2,3''"]
  by (simp add: strip_def is_space_def Let_def)


section \<open>Fetching\<close>

lemma download_attempts_failures:
  "\<forall>k\<in>set as. \<exists>p. net k = Failure p \<Longrightarrow>
   fst (download_attempts net m as st) = False
   \<and> requests (snd (download_attempts net m as st)) = requests st + length as
   \<and> sleeps (snd (download_attempts net m as st))
       = sleeps st @ map (\<lambda>k. 2 ^ k) (filter (\<lambda>k. int k < int m - 1) as)"
proof (induction as arbitrary: st)
  case Nil
  then show ?case by simp
next
  case (Cons a as)
  then obtain p where p: "net a = Failure p" by auto
  from Cons.prems have rest: "\<forall>k\<in>set as. \<exists>p. net k = Failure p" by simp
  show ?case
    using Cons.IH [OF rest] p
    by (cases p) (simp_all add: Let_def)
qed

lemma filter_before_last: "filter (\<lambda>k. int k < int m - 1) [0..<m] = [0..<m - 1]"
proof -
  have e: "(\<lambda>k. int k < int m - 1) = (\<lambda>k. k < m - 1)" by (rule ext) arith
  have "filter (\<lambda>k. k < j) [0..<n] = [0..<min n j]" for n j :: nat
  proof (induction n)
    case 0
    show ?case by simp
  next
    case (Suc n)
    show ?case
    proof (cases "n < j")
      case True
      then have "min (Suc n) j = Suc n" "min n j = n" by simp_all
      with Suc True show ?thesis by simp
    next
      case False
      then have "min (Suc n) j = j" "min n j = j" by simp_all
      with Suc False show ?thesis by simp
    qed
  qed
  from this [of "m - 1" m] show ?thesis by (simp add: e min_def)
qed

lemma download_file_failures:
  assumes "\<forall>k<max_retries. \<exists>p. net k = Failure p"
  shows "fst (download_file net max_retries st) = False"
    and "requests (snd (download_file net max_retries st)) = requests st + max_retries"
    and "sleeps (snd (download_file net max_retries st))
          = sleeps st @ map (\<lambda>k. 2 ^ k) [0..<max_retries - 1]"
proof -
  have a: "\<forall>k\<in>set [0..<max_retries]. \<exists>p. net k = Failure p" using assms by simp
  note r = download_attempts_failures [OF a, of max_retries st]
  show "fst (download_file net max_retries st) = False"
    using r by (simp add: download_file_def)
  show "requests (snd (download_file net max_retries st)) = requests st + max_retries"
    using r by (simp add: download_file_def)
  show "sleeps (snd (download_file net max_retries st))
          = sleeps st @ map (\<lambda>k. 2 ^ k) [0..<max_retries - 1]"
    using r by (simp add: download_file_def filter_before_last)
qed

lemma download_one_failed:
  assumes "files st filename = None"
    and "\<not> fst (download_file (net filename) 3 \<lparr>saved = None, requests = 0, sleeps = []\<rparr>)"
  shows "download_one net st filename =
     st\<lparr>files := (files st)(filename := None), failed := failed st + 1,
        printed := printed st @ [''Not found'']\<rparr>"
  using assms by (simp add: download_one_def fetch_one_def Let_def)

lemma download_file_404:
  assumes "net 0 = HTTPError 404" and "0 < max_retries"
  shows "download_file net max_retries st = (False, st\<lparr>requests := requests st + 1\<rparr>)"
proof -
  have "[0..<max_retries] = 0 # [1..<max_retries]" using assms(2) by (simp add: upt_rec)
  then show ?thesis using assms(1) by (simp add: download_file_def Let_def)
qed


lemma download_attempts_404:
  "net a = HTTPError 404 \<Longrightarrow>
   download_attempts net m (a # rest) st = (False, st\<lparr>requests := requests st + 1\<rparr>)"
  by (simp add: Let_def)

text \<open>
  C7, as stated, fails in its last part: \<open>download_file\<close> returns the same \<open>False\<close> for a
  404 as for three failed attempts, and the caller ends in the same state in both cases
  (the file counted as failed, "Not found" printed).
\<close>

theorem not_found_same_as_failed:
  "fst (download_file (\<lambda>attempt. HTTPError 404) 3 \<lparr>saved = None, requests = 0, sleeps = []\<rparr>)
     = fst (download_file (\<lambda>attempt. Failure None) 3 \<lparr>saved = None, requests = 0, sleeps = []\<rparr>)
   \<and> download_one (\<lambda>name attempt. HTTPError 404)
        \<lparr>files = Map.empty, downloaded = 0, skipped = 0, failed = 0, printed = []\<rparr>
        ''BTCUSDT-1s-2017-01.zip''
     = download_one (\<lambda>name attempt. Failure None)
        \<lparr>files = Map.empty, downloaded = 0, skipped = 0, failed = 0, printed = []\<rparr>
        ''BTCUSDT-1s-2017-01.zip''"
  by (simp add: download_one_def fetch_one_def download_file_def upt_rec Let_def)

text \<open>
  C7, amended. A 404 ends \<open>download_file\<close> at once with \<open>False\<close>, at whichever attempt it
  arrives: no further request and no sleep. When the first response is a 404 exactly one
  request is made. The caller counts the file as failed and prints "Not found"; it ends
  in the same state for any two remote sides on which \<open>download_file\<close> returns
  \<open>False\<close>, so a 404 and exhausted retries are not told apart.
\<close>

theorem not_found_not_retried:
  "(net attempt = HTTPError 404 \<longrightarrow>
      download_attempts net max_retries (attempt # rest) st
        = (False, st\<lparr>requests := requests st + 1\<rparr>))
   \<and> (net 0 = HTTPError 404 \<and> 0 < max_retries \<longrightarrow>
      download_file net max_retries st = (False, st\<lparr>requests := requests st + 1\<rparr>))
   \<and> (files ts filename = None \<and> remote filename 0 = HTTPError 404 \<longrightarrow>
      download_one remote ts filename =
        ts\<lparr>files := (files ts)(filename := None), failed := failed ts + 1,
           printed := printed ts @ [''Not found'']\<rparr>)
   \<and> (files ts filename = None
      \<and> \<not> fst (download_file (remote filename) 3 \<lparr>saved = None, requests = 0, sleeps = []\<rparr>)
      \<and> \<not> fst (download_file (other filename) 3 \<lparr>saved = None, requests = 0, sleeps = []\<rparr>) \<longrightarrow>
      download_one remote ts filename = download_one other ts filename)"
proof (intro conjI impI)
  assume "net attempt = HTTPError 404"
  then show "download_attempts net max_retries (attempt # rest) st
        = (False, st\<lparr>requests := requests st + 1\<rparr>)"
    by (rule download_attempts_404)
next
  assume "net 0 = HTTPError 404 \<and> 0 < max_retries"
  then show "download_file net max_retries st = (False, st\<lparr>requests := requests st + 1\<rparr>)"
    by (simp add: download_file_404)
next
  assume a: "files ts filename = None \<and> remote filename 0 = HTTPError 404"
  then have "download_file (remote filename) 3 \<lparr>saved = None, requests = 0, sleeps = []\<rparr>
      = (False, \<lparr>saved = None, requests = 0, sleeps = []\<rparr>\<lparr>requests := 0 + 1\<rparr>)"
    using download_file_404 [of "remote filename" 3 "\<lparr>saved = None, requests = 0, sleeps = []\<rparr>"]
    by simp
  then have "\<not> fst (download_file (remote filename) 3 \<lparr>saved = None, requests = 0, sleeps = []\<rparr>)"
    by simp
  with a show "download_one remote ts filename =
        ts\<lparr>files := (files ts)(filename := None), failed := failed ts + 1,
           printed := printed ts @ [''Not found'']\<rparr>"
    by (simp add: download_one_failed)
next
  assume "files ts filename = None
      \<and> \<not> fst (download_file (remote filename) 3 \<lparr>saved = None, requests = 0, sleeps = []\<rparr>)
      \<and> \<not> fst (download_file (other filename) 3 \<lparr>saved = None, requests = 0, sleeps = []\<rparr>)"
  then show "download_one remote ts filename = download_one other ts filename"
    by (simp add: download_one_failed)
qed

theorem not_found_not_retried_witness:
  "(\<lambda>k::nat. HTTPError 404) 0 = HTTPError 404 \<and> (0::nat) < 3
   \<and> download_file (\<lambda>k. HTTPError 404) 3 \<lparr>saved = None, requests = 0, sleeps = []\<rparr>
       = (False, \<lparr>saved = None, requests = 1, sleeps = []\<rparr>)
   \<and> download_attempts (\<lambda>k. if k = 1 then HTTPError 404 else Failure None) 3 [1, 2]
        \<lparr>saved = None, requests = 1, sleeps = [1]\<rparr>
       = (False, \<lparr>saved = None, requests = 2, sleeps = [1]\<rparr>)
   \<and> failed (download_one (\<lambda>name k. HTTPError 404)
        \<lparr>files = Map.empty, downloaded = 0, skipped = 0, failed = 0, printed = []\<rparr> ''a.zip'') = 1
   \<and> download_one (\<lambda>name k. HTTPError 404)
        \<lparr>files = Map.empty, downloaded = 0, skipped = 0, failed = 0, printed = []\<rparr> ''a.zip''
       = download_one (\<lambda>name k. Failure (Some ''PK''))
        \<lparr>files = Map.empty, downloaded = 0, skipped = 0, failed = 0, printed = []\<rparr> ''a.zip''"
  using not_found_not_retried [of "\<lambda>k. HTTPError 404" 0 3 "[]"
      "\<lparr>saved = None, requests = 0, sleeps = []\<rparr>"
      "\<lparr>files = Map.empty, downloaded = 0, skipped = 0, failed = 0, printed = []\<rparr>" "''a.zip''"
      "\<lambda>name k. HTTPError 404" "\<lambda>name k. Failure (Some ''PK'')"]
    not_found_not_retried [of "\<lambda>k. if k = 1 then HTTPError 404 else Failure None" 1 3 "[2]"
      "\<lparr>saved = None, requests = 1, sleeps = [1]\<rparr>"
      "\<lparr>files = Map.empty, downloaded = 0, skipped = 0, failed = 0, printed = []\<rparr>" "''a.zip''"
      "\<lambda>name k. HTTPError 404" "\<lambda>name k. Failure (Some ''PK'')"]
  by (simp add: download_one_def fetch_one_def download_file_def upt_rec Let_def)

lemma download_attempts_retried:
  "\<forall>k\<in>set as. retried (net k) \<Longrightarrow>
   fst (download_attempts net m as st) = False
   \<and> requests (snd (download_attempts net m as st)) = requests st + length as
   \<and> sleeps (snd (download_attempts net m as st))
       = sleeps st @ map (\<lambda>k. 2 ^ k) (filter (\<lambda>k. int k < int m - 1 \<and> raised_other (net k)) as)"
proof (induction as arbitrary: st)
  case Nil
  then show ?case by simp
next
  case (Cons a as)
  from Cons.prems have rest: "\<forall>k\<in>set as. retried (net k)" and a: "retried (net a)" by simp_all
  show ?case
  proof (cases "net a")
    case (Body b)
    with a show ?thesis by simp
  next
    case (Truncated b)
    with a show ?thesis by simp
  next
    case (HTTPError code)
    with a have "code \<noteq> 404" by simp
    with HTTPError Cons.IH [OF rest] show ?thesis by (simp add: Let_def)
  next
    case (Failure partial)
    with Cons.IH [OF rest] show ?thesis by (cases partial) (simp_all add: Let_def)
  qed
qed


lemma filter_before_last_and:
  "filter (\<lambda>k. int k < int m - 1 \<and> Q k) [0..<m] = filter Q [0..<m - 1]"
proof -
  have "filter (\<lambda>k. int k < int m - 1 \<and> Q k) [0..<m]
      = filter Q (filter (\<lambda>k. int k < int m - 1) [0..<m])"
    by simp
  then show ?thesis by (simp only: filter_before_last)
qed

lemma download_file_retried:
  assumes "\<forall>k<max_retries. retried (net k)"
  shows "fst (download_file net max_retries st) = False"
    and "requests (snd (download_file net max_retries st)) = requests st + max_retries"
    and "sleeps (snd (download_file net max_retries st))
          = sleeps st @ map (\<lambda>k. 2 ^ k) (filter (\<lambda>k. raised_other (net k)) [0..<max_retries - 1])"
proof -
  have a: "\<forall>k\<in>set [0..<max_retries]. retried (net k)" using assms by simp
  note r = download_attempts_retried [OF a, of max_retries st]
  show "fst (download_file net max_retries st) = False"
    using r by (simp add: download_file_def)
  show "requests (snd (download_file net max_retries st)) = requests st + max_retries"
    using r by (simp add: download_file_def)
  show "sleeps (snd (download_file net max_retries st))
          = sleeps st @ map (\<lambda>k. 2 ^ k) (filter (\<lambda>k. raised_other (net k)) [0..<max_retries - 1])"
    using r by (simp only: download_file_def filter_before_last_and)
qed

lemma fetch_one_failed:
  assumes "files st filename = None"
    and "\<not> fst (download_file (net filename) 3 \<lparr>saved = None, requests = 0, sleeps = []\<rparr>)"
  shows "fetch_one net st filename =
     (st\<lparr>files := (files st)(filename := None), failed := failed st + 1,
         printed := printed st @ [''Not found'']\<rparr>,
      (snd (download_file (net filename) 3 \<lparr>saved = None, requests = 0, sleeps = []\<rparr>))
        \<lparr>saved := None\<rparr>)"
  using assms by (simp add: fetch_one_def Let_def)

text \<open>
  C8, as stated, fails. A connection that ends before the body is complete raises nothing:
  \<open>download_file\<close> makes one request, returns \<open>True\<close> and the part received stays at the
  destination, counted as downloaded. An HTTP error other than 404 on every attempt is
  retried to the end of the budget with no sleep between the attempts.
\<close>

theorem fetch_errors_outside_backoff:
  "download_file (\<lambda>attempt. Truncated ''PK'') 3 \<lparr>saved = None, requests = 0, sleeps = []\<rparr>
     = (True, \<lparr>saved = Some ''PK'', requests = 1, sleeps = []\<rparr>)
   \<and> snd (fetch_one (\<lambda>name attempt. Truncated ''PK'')
        \<lparr>files = Map.empty, downloaded = 0, skipped = 0, failed = 0, printed = []\<rparr>
        ''BTCUSDT-1m-2017-08.zip'')
     = \<lparr>saved = Some ''PK'', requests = 1, sleeps = []\<rparr>
   \<and> files (fst (fetch_one (\<lambda>name attempt. Truncated ''PK'')
        \<lparr>files = Map.empty, downloaded = 0, skipped = 0, failed = 0, printed = []\<rparr>
        ''BTCUSDT-1m-2017-08.zip'')) ''BTCUSDT-1m-2017-08.zip'' = Some ''PK''
   \<and> downloaded (fst (fetch_one (\<lambda>name attempt. Truncated ''PK'')
        \<lparr>files = Map.empty, downloaded = 0, skipped = 0, failed = 0, printed = []\<rparr>
        ''BTCUSDT-1m-2017-08.zip'')) = 1
   \<and> failed (fst (fetch_one (\<lambda>name attempt. Truncated ''PK'')
        \<lparr>files = Map.empty, downloaded = 0, skipped = 0, failed = 0, printed = []\<rparr>
        ''BTCUSDT-1m-2017-08.zip'')) = 0
   \<and> download_file (\<lambda>attempt. HTTPError 503) 3 \<lparr>saved = None, requests = 0, sleeps = []\<rparr>
     = (False, \<lparr>saved = None, requests = 3, sleeps = []\<rparr>)"
  by (simp add: fetch_one_def download_file_def upt_rec Let_def)

text \<open>
  C8, amended. While every attempt ends in an exception that is not a 404,
  \<open>download_file\<close> goes on to the end of the budget and returns \<open>False\<close>, having slept
  \<open>2 ^ attempt\<close> seconds after each attempt but the last that raised something other than
  an HTTP error; after an HTTP error it does not sleep. When all attempts raise something
  other than an HTTP error the sleeps are \<open>2 ^ 0, 2 ^ 1, \<dots>\<close>, each twice the one before:
  1 and 2 seconds for the three attempts of the script. The iteration of
  \<open>download_timeframe\<close> then ends with three requests made, the file counted as failed
  and no file at the destination: what \<open>download_file\<close> left there is removed. A body cut
  short without an exception is not a failure: \<open>download_file\<close> returns \<open>True\<close> at once
  and the part received stays at the destination, counted as downloaded.
\<close>

theorem transient_retries_exhausted:
  "((\<forall>k<max_retries. retried (net k)) \<longrightarrow>
      fst (download_file net max_retries st) = False
    \<and> requests (snd (download_file net max_retries st)) = requests st + max_retries
    \<and> sleeps (snd (download_file net max_retries st))
        = sleeps st @ map (\<lambda>k. 2 ^ k) (filter (\<lambda>k. raised_other (net k)) [0..<max_retries - 1]))
   \<and> ((\<forall>k<max_retries. \<exists>p. net k = Failure p) \<longrightarrow>
      fst (download_file net max_retries st) = False
    \<and> requests (snd (download_file net max_retries st)) = requests st + max_retries
    \<and> sleeps (snd (download_file net max_retries st))
        = sleeps st @ map (\<lambda>k. 2 ^ k) [0..<max_retries - 1])
   \<and> ((\<forall>k<3. retried (remote filename k)) \<and> files ts filename = None \<longrightarrow>
      fetch_one remote ts filename =
        (ts\<lparr>files := (files ts)(filename := None), failed := failed ts + 1,
            printed := printed ts @ [''Not found'']\<rparr>,
         (snd (download_file (remote filename) 3 \<lparr>saved = None, requests = 0, sleeps = []\<rparr>))
           \<lparr>saved := None\<rparr>)
    \<and> saved (snd (fetch_one remote ts filename)) = None
    \<and> requests (snd (fetch_one remote ts filename)) = 3
    \<and> sleeps (snd (fetch_one remote ts filename))
        = map (\<lambda>k. 2 ^ k) (filter (\<lambda>k. raised_other (remote filename k)) [0..<2])
    \<and> files (fst (fetch_one remote ts filename)) filename = None)
   \<and> ((\<forall>k<3. \<exists>p. remote filename k = Failure p) \<and> files ts filename = None \<longrightarrow>
      fetch_one remote ts filename =
        (ts\<lparr>files := (files ts)(filename := None), failed := failed ts + 1,
            printed := printed ts @ [''Not found'']\<rparr>,
         (snd (download_file (remote filename) 3 \<lparr>saved = None, requests = 0, sleeps = []\<rparr>))
           \<lparr>saved := None\<rparr>)
    \<and> saved (snd (fetch_one remote ts filename)) = None
    \<and> requests (snd (fetch_one remote ts filename)) = 3
    \<and> sleeps (snd (fetch_one remote ts filename)) = [1, 2]
    \<and> files (fst (fetch_one remote ts filename)) filename = None
    \<and> failed (fst (fetch_one remote ts filename)) = failed ts + 1
    \<and> downloaded (fst (fetch_one remote ts filename)) = downloaded ts)
   \<and> (net attempt = Truncated b \<longrightarrow>
      download_attempts net max_retries (attempt # rest) st
        = (True, st\<lparr>requests := requests st + 1, saved := Some b\<rparr>))
   \<and> (remote filename 0 = Truncated b \<and> files ts filename = None \<longrightarrow>
      fetch_one remote ts filename =
        (ts\<lparr>files := (files ts)(filename := Some b), downloaded := downloaded ts + 1,
            printed := printed ts @ [''OK'']\<rparr>,
         \<lparr>saved = Some b, requests = 1, sleeps = []\<rparr>))"
proof (intro conjI impI)
  assume a: "\<forall>k<max_retries. retried (net k)"
  show "fst (download_file net max_retries st) = False"
    using a by (rule download_file_retried(1))
  show "requests (snd (download_file net max_retries st)) = requests st + max_retries"
    using a by (rule download_file_retried(2))
  show "sleeps (snd (download_file net max_retries st))
        = sleeps st @ map (\<lambda>k. 2 ^ k) (filter (\<lambda>k. raised_other (net k)) [0..<max_retries - 1])"
    using a by (rule download_file_retried(3))
next
  assume a: "\<forall>k<max_retries. \<exists>p. net k = Failure p"
  show "fst (download_file net max_retries st) = False"
    using a by (rule download_file_failures(1))
  show "requests (snd (download_file net max_retries st)) = requests st + max_retries"
    using a by (rule download_file_failures(2))
  show "sleeps (snd (download_file net max_retries st))
        = sleeps st @ map (\<lambda>k. 2 ^ k) [0..<max_retries - 1]"
    using a by (rule download_file_failures(3))
next
  assume b: "(\<forall>k<3. retried (remote filename k)) \<and> files ts filename = None"
  then have f: "\<forall>k<3. retried (remote filename k)" by simp
  note r = download_file_retried [OF f, of "\<lparr>saved = None, requests = 0, sleeps = []\<rparr>"]
  from r(1) have n: "\<not> fst (download_file (remote filename) 3 \<lparr>saved = None, requests = 0, sleeps = []\<rparr>)"
    by simp
  from b have e: "files ts filename = None" by simp
  note o = fetch_one_failed [of ts filename remote, OF e n]
  show "fetch_one remote ts filename =
        (ts\<lparr>files := (files ts)(filename := None), failed := failed ts + 1,
            printed := printed ts @ [''Not found'']\<rparr>,
         (snd (download_file (remote filename) 3 \<lparr>saved = None, requests = 0, sleeps = []\<rparr>))
           \<lparr>saved := None\<rparr>)"
    by (rule o)
  show "saved (snd (fetch_one remote ts filename)) = None" by (simp add: o)
  show "requests (snd (fetch_one remote ts filename)) = 3" using r(2) by (simp add: o)
  have "sleeps (snd (fetch_one remote ts filename))
      = sleeps (snd (download_file (remote filename) 3 \<lparr>saved = None, requests = 0, sleeps = []\<rparr>))"
    by (simp add: o)
  also have "\<dots> = [] @ map (\<lambda>k. 2 ^ k) (filter (\<lambda>k. raised_other (remote filename k)) [0..<3 - 1])"
    using r(3) by simp
  finally show "sleeps (snd (fetch_one remote ts filename))
        = map (\<lambda>k. 2 ^ k) (filter (\<lambda>k. raised_other (remote filename k)) [0..<2])"
    by simp
  show "files (fst (fetch_one remote ts filename)) filename = None" by (simp add: o)
next
  assume b: "(\<forall>k<3. \<exists>p. remote filename k = Failure p) \<and> files ts filename = None"
  then have f: "\<forall>k<3. \<exists>p. remote filename k = Failure p" by simp
  note r = download_file_failures [OF f, of "\<lparr>saved = None, requests = 0, sleeps = []\<rparr>"]
  from r(1) have n: "\<not> fst (download_file (remote filename) 3 \<lparr>saved = None, requests = 0, sleeps = []\<rparr>)"
    by simp
  from b have e: "files ts filename = None" by simp
  note o = fetch_one_failed [of ts filename remote, OF e n]
  show "fetch_one remote ts filename =
        (ts\<lparr>files := (files ts)(filename := None), failed := failed ts + 1,
            printed := printed ts @ [''Not found'']\<rparr>,
         (snd (download_file (remote filename) 3 \<lparr>saved = None, requests = 0, sleeps = []\<rparr>))
           \<lparr>saved := None\<rparr>)"
    by (rule o)
  show "saved (snd (fetch_one remote ts filename)) = None" by (simp add: o)
  show "requests (snd (fetch_one remote ts filename)) = 3" using r(2) by (simp add: o)
  show "sleeps (snd (fetch_one remote ts filename)) = [1, 2]"
    using r(3) by (simp add: o upt_rec)
  show "files (fst (fetch_one remote ts filename)) filename = None" by (simp add: o)
  show "failed (fst (fetch_one remote ts filename)) = failed ts + 1" by (simp add: o)
  show "downloaded (fst (fetch_one remote ts filename)) = downloaded ts" by (simp add: o)
next
  assume "net attempt = Truncated b"
  then show "download_attempts net max_retries (attempt # rest) st
        = (True, st\<lparr>requests := requests st + 1, saved := Some b\<rparr>)"
    by (simp add: Let_def)
next
  assume "remote filename 0 = Truncated b \<and> files ts filename = None"
  then show "fetch_one remote ts filename =
        (ts\<lparr>files := (files ts)(filename := Some b), downloaded := downloaded ts + 1,
            printed := printed ts @ [''OK'']\<rparr>,
         \<lparr>saved = Some b, requests = 1, sleeps = []\<rparr>)"
    by (simp add: fetch_one_def download_file_def upt_rec Let_def)
qed

theorem transient_retries_exhausted_witness:
  "download_file (\<lambda>k. Failure (if k = 1 then Some ''PK'' else None)) 3
        \<lparr>saved = None, requests = 0, sleeps = []\<rparr>
       = (False, \<lparr>saved = Some ''PK'', requests = 3, sleeps = [1, 2]\<rparr>)
   \<and> snd (fetch_one (\<lambda>name k. Failure (if k = 1 then Some ''PK'' else None))
        \<lparr>files = Map.empty, downloaded = 0, skipped = 0, failed = 0, printed = []\<rparr> ''a.zip'')
       = \<lparr>saved = None, requests = 3, sleeps = [1, 2]\<rparr>
   \<and> files (fst (fetch_one (\<lambda>name k. Failure (if k = 1 then Some ''PK'' else None))
        \<lparr>files = Map.empty, downloaded = 0, skipped = 0, failed = 0, printed = []\<rparr> ''a.zip'')) ''a.zip''
       = None
   \<and> failed (fst (fetch_one (\<lambda>name k. Failure (if k = 1 then Some ''PK'' else None))
        \<lparr>files = Map.empty, downloaded = 0, skipped = 0, failed = 0, printed = []\<rparr> ''a.zip'')) = 1
   \<and> download_file (\<lambda>k. if k = 1 then HTTPError 503 else Failure None) 3
        \<lparr>saved = None, requests = 0, sleeps = []\<rparr>
       = (False, \<lparr>saved = None, requests = 3, sleeps = [1]\<rparr>)
   \<and> download_attempts (\<lambda>k. Truncated ''PK'') 3 [0, 1, 2] \<lparr>saved = None, requests = 0, sleeps = []\<rparr>
       = (True, \<lparr>saved = Some ''PK'', requests = 1, sleeps = []\<rparr>)"
  using transient_retries_exhausted [of 3 "\<lambda>k. Failure (if k = 1 then Some ''PK'' else None)"
      "\<lparr>saved = None, requests = 0, sleeps = []\<rparr>"
      "\<lambda>name k. Failure (if k = 1 then Some ''PK'' else None)" "''a.zip''"
      "\<lparr>files = Map.empty, downloaded = 0, skipped = 0, failed = 0, printed = []\<rparr>" 0 "''PK''" "[1, 2]"]
    transient_retries_exhausted [of 3 "\<lambda>k. if k = 1 then HTTPError 503 else Failure None"
      "\<lparr>saved = None, requests = 0, sleeps = []\<rparr>"
      "\<lambda>name k. Failure None" "''a.zip''"
      "\<lparr>files = Map.empty, downloaded = 0, skipped = 0, failed = 0, printed = []\<rparr>" 0 "''PK''" "[1, 2]"]
    transient_retries_exhausted [of 3 "\<lambda>k. Truncated ''PK''"
      "\<lparr>saved = None, requests = 0, sleeps = []\<rparr>"
      "\<lambda>name k. Failure None" "''a.zip''"
      "\<lparr>files = Map.empty, downloaded = 0, skipped = 0, failed = 0, printed = []\<rparr>" 0 "''PK''" "[1, 2]"]
  by (simp add: fetch_one_def download_file_def upt_rec Let_def)

section \<open>Choosing the data file of an archive\<close>

lemma zf_open_first_csv:
  assumes "csv_files ms \<noteq> []"
  shows "\<exists>m. zf_open ms (csv_files ms ! 0) = Some m \<and> m \<in> set ms
           \<and> mname m = csv_files ms ! 0 \<and> endswith (mname m) ''.csv''"
proof -
  let ?n = "csv_files ms ! 0"
  have "?n \<in> set (csv_files ms)" using assms by simp
  then have n: "endswith ?n ''.csv''" "?n \<in> mname ` set ms"
    unfolding csv_files_def by auto
  let ?c = "filter (\<lambda>m. mname m = ?n) ms"
  from n(2) have ne: "?c \<noteq> []" by (auto simp: filter_empty_conv)
  then have o: "zf_open ms ?n = Some (last ?c)"
    by (cases ?c) (simp_all add: zf_open_def)
  have "last ?c \<in> set ?c" using ne by (rule last_in_set)
  then have "last ?c \<in> set ms" "mname (last ?c) = ?n" by auto
  with o n(1) show ?thesis by simp
qed

lemma single_member:
  "endswith (mname m) ''.csv'' \<Longrightarrow> csv_files [m] = [mname m] \<and> zf_open [m] (mname m) = Some m"
  by (simp add: csv_files_def zf_open_def)

lemma first_csv_find:
  assumes "csv_files ms \<noteq> []"
  shows "\<exists>m. find (\<lambda>m. endswith (mname m) ''.csv'') ms = Some m \<and> csv_files ms ! 0 = mname m"
  using assms unfolding csv_files_def
  by (induction ms) auto

lemma archive_selection:
  assumes "zf_open ms (csv_files ms ! 0) = Some m" and "csv_files ms \<noteq> []"
    and "mname m = csv_files ms ! 0" and "endswith (mname m) ''.csv''"
  shows "stream_archive st (name, ZipFile ms) = stream_archive st (name, ZipFile [m])"
    and "collect_archive cs (name, ZipFile ms) = collect_archive cs (name, ZipFile [m])"
    and "gather_archive ls (name, ZipFile ms) = gather_archive ls (name, ZipFile [m])"
  using assms single_member [OF assms(4)]
  by (simp_all add: stream_archive_def collect_archive_def gather_archive_def)

text \<open>
  C6, as stated, fails for several candidates: an archive with two \<open>.csv\<close> members is
  processed like any other, in all three scripts, from its first \<open>.csv\<close> member; no
  error is reported and the archive is not skipped.
\<close>

theorem several_candidates_first_taken:
  "stream_main (Some [(''x.zip'', ZipFile
      [\<lparr>mname = ''a.csv'', mdata = ''1,o,h,l,c,v\<newline>'', broken = False\<rparr>,
       \<lparr>mname = ''b.csv'', mdata = ''2,o,h,l,c,v\<newline>'', broken = False\<rparr>])])
     = Inr \<lparr>outfile = [''timestamp,open,high,low,close,volume\<newline>'', ''1,o,h,l,c,v\<newline>''],
            total_candles = 1, last_timestamp = Some ''1'', duplicates_skipped = 0,
            file_candles = 1, file_duplicates = 0, stdout = [FileDone ''x.zip'' 1 1]\<rparr>
   \<and> convert_timeframe (Some [(''x.zip'', ZipFile
      [\<lparr>mname = ''a.csv'', mdata = ''1,o,h,l,c,v\<newline>'', broken = False\<rparr>,
       \<lparr>mname = ''b.csv'', mdata = ''2,o,h,l,c,v\<newline>'', broken = False\<rparr>])])
     = Inr (Success 1 1 [[''1'', ''o'', ''h'', ''l'', ''c'', ''v'']])
   \<and> convert_binance_to_zigquant [(''x.zip'', ZipFile
      [\<lparr>mname = ''a.csv'', mdata = ''1,o,h,l,c,v\<newline>'', broken = False\<rparr>,
       \<lparr>mname = ''b.csv'', mdata = ''2,o,h,l,c,v\<newline>'', broken = False\<rparr>])]
     = Inr (True, [''timestamp,open,high,low,close,volume\<newline>'', ''1,o,h,l,c,v\<newline>''])"
  by code_simp

lemma zf_open_last:
  assumes "csv_files ms \<noteq> []"
  shows "zf_open ms (csv_files ms ! 0)
     = Some (last (filter (\<lambda>m. mname m = csv_files ms ! 0) ms))"
proof -
  have "csv_files ms ! 0 \<in> set (csv_files ms)" using assms by simp
  then have "csv_files ms ! 0 \<in> mname ` set ms" unfolding csv_files_def by auto
  then have "filter (\<lambda>m. mname m = csv_files ms ! 0) ms \<noteq> []"
    by (auto simp: filter_empty_conv)
  then show ?thesis
    by (cases "filter (\<lambda>m. mname m = csv_files ms ! 0) ms") (simp_all add: zf_open_def)
qed

lemma filter_same_name:
  "distinct (map mname ms) \<Longrightarrow> x \<in> set ms \<Longrightarrow> filter (\<lambda>m. mname m = mname x) ms = [x]"
proof (induction ms)
  case Nil
  then show ?case by simp
next
  case (Cons a ms)
  show ?case
  proof (cases "a = x")
    case True
    with Cons.prems have "mname x \<notin> mname ` set ms" by simp
    then have "\<forall>m\<in>set ms. mname m \<noteq> mname x" by (metis imageI)
    then have "filter (\<lambda>m. mname m = mname x) ms = []" by (simp add: filter_empty_conv)
    with True show ?thesis by simp
  next
    case False
    with Cons.prems have "x \<in> set ms" "mname a \<noteq> mname x" by auto
    with Cons show ?thesis by simp
  qed
qed

lemma zf_open_distinct:
  assumes "distinct (map mname ms)"
    and "find (\<lambda>m. endswith (mname m) ''.csv'') ms = Some first"
    and "csv_files ms ! 0 = mname first"
  shows "zf_open ms (csv_files ms ! 0) = Some first"
proof -
  from assms(2) have "first \<in> set ms" by (auto simp: find_Some_iff)
  from filter_same_name [OF assms(1) this] show ?thesis
    by (simp add: zf_open_def assms(3))
qed

lemma foldl_same_step:
  "(\<And>s. f s z = f s z') \<Longrightarrow> foldl f s (pre @ z # post) = foldl f s (pre @ z' # post)"
  by simp

lemma foldl_skip_step:
  "(\<And>s. f s z = s) \<Longrightarrow> foldl f s (pre @ z # post) = foldl f s (pre @ post)"
  by simp

lemma stream_archive_no_csv:
  "csv_files ms = [] \<Longrightarrow>
   stream_archive st (name, ZipFile ms)
     = st\<lparr>file_candles := 0, file_duplicates := 0, stdout := stdout st @ [NoCsvFound name]\<rparr>"
  by (simp add: stream_archive_def)

lemma collect_archive_no_csv: "csv_files ms = [] \<Longrightarrow> collect_archive cs (name, ZipFile ms) = cs"
  by (simp add: collect_archive_def)

lemma gather_archive_no_csv: "csv_files ms = [] \<Longrightarrow> gather_archive ls (name, ZipFile ms) = ls"
  by (simp add: gather_archive_def)

lemma convert_timeframe_same_collect:
  "collect zs = collect zs' \<Longrightarrow> zs \<noteq> [] \<Longrightarrow> zs' \<noteq> [] \<Longrightarrow>
   convert_timeframe (Some zs) = convert_timeframe (Some zs')"
  by (simp add: convert_timeframe_def)

lemma convert_binance_same_gather:
  "foldl gather_archive [] zs = foldl gather_archive [] zs' \<Longrightarrow> zs \<noteq> [] \<Longrightarrow> zs' \<noteq> [] \<Longrightarrow>
   convert_binance_to_zigquant zs = convert_binance_to_zigquant zs'"
  by (simp add: convert_binance_to_zigquant_def)

text \<open>
  C6, amended. An archive without a \<open>.csv\<close> member is skipped: the streaming script
  prints that no CSV was found and goes on with the next archive from the state it had,
  and each bulk script gives the result it gives without that archive. Otherwise the name
  of the first \<open>.csv\<close> member in listing order is opened, which gives that member when
  the names in the archive are distinct and, as \<open>zipfile\<close> has it, the last member of
  that name otherwise; the archive is processed, and the whole run ends, exactly as with
  the archive holding the opened member alone. Further candidates are ignored without a
  report.
\<close>

theorem first_csv_entry_chosen:
  "(csv_files ms = [] \<longrightarrow>
      stream_archive st (name, ZipFile ms)
        = st\<lparr>file_candles := 0, file_duplicates := 0, stdout := stdout st @ [NoCsvFound name]\<rparr>
    \<and> collect_archive cs (name, ZipFile ms) = cs
    \<and> gather_archive ls (name, ZipFile ms) = ls
    \<and> stream_main (Some (pre @ (name, ZipFile ms) # post))
        = Inr (foldl stream_archive
                ((foldl stream_archive stream_init pre)
                   \<lparr>file_candles := 0, file_duplicates := 0,
                    stdout := stdout (foldl stream_archive stream_init pre) @ [NoCsvFound name]\<rparr>)
                post)
    \<and> (pre @ post \<noteq> [] \<longrightarrow>
        convert_timeframe (Some (pre @ (name, ZipFile ms) # post))
          = convert_timeframe (Some (pre @ post))
      \<and> convert_binance_to_zigquant (pre @ (name, ZipFile ms) # post)
          = convert_binance_to_zigquant (pre @ post)))
   \<and> (csv_files ms \<noteq> [] \<longrightarrow>
      (\<exists>first. find (\<lambda>m. endswith (mname m) ''.csv'') ms = Some first
          \<and> csv_files ms ! 0 = mname first
          \<and> (distinct (map mname ms) \<longrightarrow> zf_open ms (csv_files ms ! 0) = Some first))
    \<and> zf_open ms (csv_files ms ! 0)
        = Some (last (filter (\<lambda>m. mname m = csv_files ms ! 0) ms))
    \<and> (\<forall>m. zf_open ms (csv_files ms ! 0) = Some m \<longrightarrow>
          stream_archive st (name, ZipFile ms) = stream_archive st (name, ZipFile [m])
        \<and> collect_archive cs (name, ZipFile ms) = collect_archive cs (name, ZipFile [m])
        \<and> gather_archive ls (name, ZipFile ms) = gather_archive ls (name, ZipFile [m])
        \<and> stream_main (Some (pre @ (name, ZipFile ms) # post))
            = stream_main (Some (pre @ (name, ZipFile [m]) # post))
        \<and> convert_timeframe (Some (pre @ (name, ZipFile ms) # post))
            = convert_timeframe (Some (pre @ (name, ZipFile [m]) # post))
        \<and> convert_binance_to_zigquant (pre @ (name, ZipFile ms) # post)
            = convert_binance_to_zigquant (pre @ (name, ZipFile [m]) # post)))"
proof (intro conjI impI allI)
  assume e: "csv_files ms = []"
  show "stream_archive st (name, ZipFile ms)
        = st\<lparr>file_candles := 0, file_duplicates := 0, stdout := stdout st @ [NoCsvFound name]\<rparr>"
    using e by (rule stream_archive_no_csv)
  show "collect_archive cs (name, ZipFile ms) = cs"
    using e by (rule collect_archive_no_csv)
  show "gather_archive ls (name, ZipFile ms) = ls"
    using e by (rule gather_archive_no_csv)
  show "stream_main (Some (pre @ (name, ZipFile ms) # post))
        = Inr (foldl stream_archive
                ((foldl stream_archive stream_init pre)
                   \<lparr>file_candles := 0, file_duplicates := 0,
                    stdout := stdout (foldl stream_archive stream_init pre) @ [NoCsvFound name]\<rparr>)
                post)"
    by (simp add: stream_main_def stream_archive_no_csv [OF e])
  {
    assume n: "pre @ post \<noteq> []"
    have "collect (pre @ (name, ZipFile ms) # post) = collect (pre @ post)"
      unfolding collect_def by (rule foldl_skip_step) (rule collect_archive_no_csv [OF e])
    then show "convert_timeframe (Some (pre @ (name, ZipFile ms) # post))
          = convert_timeframe (Some (pre @ post))"
      using n by (intro convert_timeframe_same_collect) simp_all
    have "foldl gather_archive [] (pre @ (name, ZipFile ms) # post)
        = foldl gather_archive [] (pre @ post)"
      by (rule foldl_skip_step) (rule gather_archive_no_csv [OF e])
    then show "convert_binance_to_zigquant (pre @ (name, ZipFile ms) # post)
          = convert_binance_to_zigquant (pre @ post)"
      using n by (intro convert_binance_same_gather) simp_all
  }
next
  assume ne: "csv_files ms \<noteq> []"
  from first_csv_find [OF ne] obtain first where
    f: "find (\<lambda>m. endswith (mname m) ''.csv'') ms = Some first" "csv_files ms ! 0 = mname first"
    by blast
  show "\<exists>first. find (\<lambda>m. endswith (mname m) ''.csv'') ms = Some first
          \<and> csv_files ms ! 0 = mname first
          \<and> (distinct (map mname ms) \<longrightarrow> zf_open ms (csv_files ms ! 0) = Some first)"
    using f zf_open_distinct [OF _ f] by blast
  show "zf_open ms (csv_files ms ! 0)
        = Some (last (filter (\<lambda>m. mname m = csv_files ms ! 0) ms))"
    using ne by (rule zf_open_last)
  fix m
  assume o: "zf_open ms (csv_files ms ! 0) = Some m"
  from zf_open_first_csv [OF ne] o have
    m: "mname m = csv_files ms ! 0" "endswith (mname m) ''.csv''" by auto
  note s = archive_selection [OF o ne m]
  show "stream_archive st (name, ZipFile ms) = stream_archive st (name, ZipFile [m])"
    by (rule s(1))
  show "collect_archive cs (name, ZipFile ms) = collect_archive cs (name, ZipFile [m])"
    by (rule s(2))
  show "gather_archive ls (name, ZipFile ms) = gather_archive ls (name, ZipFile [m])"
    by (rule s(3))
  have "foldl stream_archive stream_init (pre @ (name, ZipFile ms) # post)
      = foldl stream_archive stream_init (pre @ (name, ZipFile [m]) # post)"
    by (rule foldl_same_step) (rule s(1))
  then show "stream_main (Some (pre @ (name, ZipFile ms) # post))
            = stream_main (Some (pre @ (name, ZipFile [m]) # post))"
    by (simp add: stream_main_def)
  have "collect (pre @ (name, ZipFile ms) # post) = collect (pre @ (name, ZipFile [m]) # post)"
    unfolding collect_def by (rule foldl_same_step) (rule s(2))
  then show "convert_timeframe (Some (pre @ (name, ZipFile ms) # post))
            = convert_timeframe (Some (pre @ (name, ZipFile [m]) # post))"
    by (intro convert_timeframe_same_collect) simp_all
  have "foldl gather_archive [] (pre @ (name, ZipFile ms) # post)
      = foldl gather_archive [] (pre @ (name, ZipFile [m]) # post)"
    by (rule foldl_same_step) (rule s(3))
  then show "convert_binance_to_zigquant (pre @ (name, ZipFile ms) # post)
            = convert_binance_to_zigquant (pre @ (name, ZipFile [m]) # post)"
    by (intro convert_binance_same_gather) simp_all
qed

theorem first_csv_entry_chosen_witness:
  "csv_files [\<lparr>mname = ''README.txt'', mdata = ''x'', broken = False\<rparr>] = []
   \<and> stream_main (Some [(''e.zip'', ZipFile [\<lparr>mname = ''README.txt'', mdata = ''x'', broken = False\<rparr>])])
       = Inr (stream_init\<lparr>stdout := [NoCsvFound ''e.zip'']\<rparr>)
   \<and> csv_files [\<lparr>mname = ''a.csv'', mdata = ''1,o,h,l,c,v\<newline>'', broken = False\<rparr>,
                \<lparr>mname = ''b.csv'', mdata = ''2,o,h,l,c,v\<newline>'', broken = False\<rparr>] \<noteq> []
   \<and> zf_open [\<lparr>mname = ''a.csv'', mdata = ''1,o,h,l,c,v\<newline>'', broken = False\<rparr>,
              \<lparr>mname = ''b.csv'', mdata = ''2,o,h,l,c,v\<newline>'', broken = False\<rparr>] ''a.csv''
       = Some \<lparr>mname = ''a.csv'', mdata = ''1,o,h,l,c,v\<newline>'', broken = False\<rparr>
   \<and> stream_main (Some [(''x.zip'', ZipFile
        [\<lparr>mname = ''a.csv'', mdata = ''1,o,h,l,c,v\<newline>'', broken = False\<rparr>,
         \<lparr>mname = ''b.csv'', mdata = ''2,o,h,l,c,v\<newline>'', broken = False\<rparr>])])
       = stream_main (Some [(''x.zip'', ZipFile
        [\<lparr>mname = ''a.csv'', mdata = ''1,o,h,l,c,v\<newline>'', broken = False\<rparr>])])
   \<and> convert_timeframe (Some [(''x.zip'', ZipFile
        [\<lparr>mname = ''a.csv'', mdata = ''1,o,h,l,c,v\<newline>'', broken = False\<rparr>,
         \<lparr>mname = ''b.csv'', mdata = ''2,o,h,l,c,v\<newline>'', broken = False\<rparr>])])
       = convert_timeframe (Some [(''x.zip'', ZipFile
        [\<lparr>mname = ''a.csv'', mdata = ''1,o,h,l,c,v\<newline>'', broken = False\<rparr>])])"
  using first_csv_entry_chosen [of "[\<lparr>mname = ''README.txt'', mdata = ''x'', broken = False\<rparr>]"
      stream_init "''e.zip''" "\<lparr>all_rows = [], processed_files = 0, stderr = []\<rparr>" "[]" "[]" "[]"]
    first_csv_entry_chosen [of "[\<lparr>mname = ''a.csv'', mdata = ''1,o,h,l,c,v\<newline>'', broken = False\<rparr>,
         \<lparr>mname = ''b.csv'', mdata = ''2,o,h,l,c,v\<newline>'', broken = False\<rparr>]"
      stream_init "''x.zip''" "\<lparr>all_rows = [], processed_files = 0, stderr = []\<rparr>" "[]" "[]" "[]"]
  by (simp add: csv_files_def endswith_def zf_open_def stream_init_def)

section \<open>Bulk mode\<close>

lemma remove_duplicates_acc:
  "remove_duplicates seen acc xs = acc @ remove_duplicates seen [] xs"
proof (induction xs arbitrary: seen acc)
  case Nil
  show ?case by simp
next
  case (Cons row rest)
  show ?case
    using Cons [of "insert (row ! 0) seen" "acc @ [row]"] Cons [of "insert (row ! 0) seen" "[row]"]
      Cons [of seen acc]
    by (simp add: Let_def)
qed

lemma remove_duplicates_Cons:
  "remove_duplicates seen [] (row # rest) =
     (if row ! 0 \<notin> seen then row # remove_duplicates (insert (row ! 0) seen) [] rest
      else remove_duplicates seen [] rest)"
  using remove_duplicates_acc [of "insert (row ! 0) seen" "[row]" rest]
  by (simp add: Let_def)

lemma remove_duplicates_member:
  "r \<in> set (remove_duplicates seen [] xs) \<Longrightarrow> r \<in> set xs \<and> r ! 0 \<notin> seen"
  by (induction xs arbitrary: seen) (auto simp: remove_duplicates_Cons simp del: remove_duplicates.simps(2) split: if_splits)


lemma remove_duplicates_set:
  "(\<lambda>x. x ! 0) ` set (remove_duplicates seen [] xs) = (\<lambda>x. x ! 0) ` set xs - seen"
  by (induction xs arbitrary: seen) (auto simp: remove_duplicates_Cons simp del: remove_duplicates.simps(2))


lemma remove_duplicates_first:
  "r \<in> set (remove_duplicates seen [] xs) \<Longrightarrow> find (\<lambda>x. x ! 0 = r ! 0) xs = Some r"
proof (induction xs arbitrary: seen)
  case Nil
  then show ?case by simp
next
  case (Cons row rest)
  show ?case
  proof (cases "row ! 0 \<in> seen")
    case True
    with Cons.prems have m: "r \<in> set (remove_duplicates seen [] rest)"
      by (simp add: remove_duplicates_Cons del: remove_duplicates.simps(2))
    then have "r ! 0 \<notin> seen" by (rule remove_duplicates_member [THEN conjunct2])
    with True have "row ! 0 \<noteq> r ! 0" by auto
    with Cons.IH [OF m] show ?thesis by simp
  next
    case False
    with Cons.prems have "r = row \<or> r \<in> set (remove_duplicates (insert (row ! 0) seen) [] rest)"
      by (simp add: remove_duplicates_Cons del: remove_duplicates.simps(2))
    then show ?thesis
    proof
      assume "r = row"
      then show ?thesis by simp
    next
      assume m: "r \<in> set (remove_duplicates (insert (row ! 0) seen) [] rest)"
      then have "r ! 0 \<notin> insert (row ! 0) seen" by (rule remove_duplicates_member [THEN conjunct2])
      then have "row ! 0 \<noteq> r ! 0" by auto
      with Cons.IH [OF m] show ?thesis by simp
    qed
  qed
qed

lemma remove_duplicates_none:
  "distinct (map (\<lambda>x. x ! 0) xs) \<Longrightarrow> (\<lambda>x. x ! 0) ` set xs \<inter> seen = {} \<Longrightarrow>
   remove_duplicates seen [] xs = xs"
  by (induction xs arbitrary: seen) (auto simp: remove_duplicates_Cons simp del: remove_duplicates.simps(2))

lemma find_filter_hd:
  "find P xs = (case filter P xs of [] \<Rightarrow> None | x # _ \<Rightarrow> Some x)"
  by (induction xs) auto

lemma filter_sort_key_const:
  assumes "\<And>x. P x \<Longrightarrow> k x = c"
  shows "filter P (sort_key k xs) = filter P xs"
proof -
  have e: "filter P ys = filter P (filter (\<lambda>y. k y = c) ys)" for ys
    using assms by (auto intro: filter_cong)
  have "filter P (sort_key k xs) = filter P (filter (\<lambda>y. k y = c) (sort_key k xs))"
    by (rule e)
  also have "\<dots> = filter P (filter (\<lambda>y. k y = c) xs)"
    by (simp only: sort_key_stable)
  also have "\<dots> = filter P xs" by (rule e [symmetric])
  finally show ?thesis .
qed

lemma find_sort_key_text:
  "find (\<lambda>x. x ! 0 = t) (sort_key (\<lambda>x. the (py_int (x ! 0))) rows) = find (\<lambda>x. x ! 0 = t) rows"
  using filter_sort_key_const [of "\<lambda>x. x ! 0 = t" "\<lambda>x. the (py_int (x ! 0))" "the (py_int t)" rows]
  by (simp add: find_filter_hd)

lemma sort_rows_Some:
  "sort_rows rows = Some srt \<Longrightarrow> srt = sort_key (\<lambda>x. the (py_int (x ! 0))) rows"
  by (simp add: sort_rows_def split: if_splits)


lemma py_int_samples:
  "py_int ''1'' = Some 1" "py_int ''3'' = Some 3" "py_int ''5'' = Some 5" "py_int ''05'' = Some 5"
  by code_simp+

lemma sort_and_write_Some:
  assumes "sort_rows rows = Some srt" and "rows \<noteq> []"
  shows "sort_and_write n rows =
     Inr (Success n (length (remove_duplicates {} [] srt)) (remove_duplicates {} [] srt))"
  using assms by (simp add: sort_and_write_def Let_def)






lemma convert_timeframe_collect:
  "zs \<noteq> [] \<Longrightarrow>
   convert_timeframe (Some zs) = sort_and_write (processed_files (collect zs)) (all_rows (collect zs))"
  by (simp add: convert_timeframe_def Let_def)

lemma remove_duplicates_kept_iff:
  "r \<in> set (remove_duplicates {} [] (sort_key (\<lambda>x. the (py_int (x ! 0))) rows))
     \<longleftrightarrow> find (\<lambda>x. x ! 0 = r ! 0) rows = Some r"
proof
  assume "r \<in> set (remove_duplicates {} [] (sort_key (\<lambda>x. the (py_int (x ! 0))) rows))"
  then have "find (\<lambda>x. x ! 0 = r ! 0) (sort_key (\<lambda>x. the (py_int (x ! 0))) rows) = Some r"
    by (rule remove_duplicates_first)
  then show "find (\<lambda>x. x ! 0 = r ! 0) rows = Some r" by (simp add: find_sort_key_text)
next
  let ?out = "remove_duplicates {} [] (sort_key (\<lambda>x. the (py_int (x ! 0))) rows)"
  assume f: "find (\<lambda>x. x ! 0 = r ! 0) rows = Some r"
  then have "r \<in> set rows" by (auto simp: find_Some_iff)
  then have "r ! 0 \<in> (\<lambda>x. x ! 0) ` set rows" by simp
  also have "(\<lambda>x. x ! 0) ` set rows = (\<lambda>x. x ! 0) ` set ?out"
    using remove_duplicates_set [of "{}" "sort_key (\<lambda>x. the (py_int (x ! 0))) rows"] by simp
  finally obtain r' where r': "r' \<in> set ?out" "r' ! 0 = r ! 0" by auto
  from r'(1) have "find (\<lambda>x. x ! 0 = r' ! 0) (sort_key (\<lambda>x. the (py_int (x ! 0))) rows) = Some r'"
    by (rule remove_duplicates_first)
  then have "find (\<lambda>x. x ! 0 = r ! 0) rows = Some r'" by (simp add: find_sort_key_text r'(2))
  with f have "r' = r" by simp
  with r'(1) show "r \<in> set ?out" by simp
qed





section \<open>Timestamps are compared as text\<close>

lemma stream_lines_all_written:
  "\<forall>raw\<in>set lines. 6 \<le> length (split_on CHR '','' (strip raw)) \<Longrightarrow>
   distinct_adj (last_timestamp st # map (\<lambda>raw. Some (split_on CHR '','' (strip raw) ! 0)) lines) \<Longrightarrow>
   foldl stream_line st lines =
     st\<lparr>last_timestamp :=
          last (last_timestamp st # map (\<lambda>raw. Some (split_on CHR '','' (strip raw) ! 0)) lines),
        outfile := outfile st @
          map (\<lambda>raw. join_with CHR '','' (take 6 (split_on CHR '','' (strip raw))) @ ''\<newline>'') lines,
        file_candles := file_candles st + length lines\<rparr>"
proof (induction lines arbitrary: st)
  case Nil
  show ?case by simp
next
  case (Cons raw lines)
  let ?st1 = "st\<lparr>last_timestamp := Some (split_on CHR '','' (strip raw) ! 0),
        outfile := outfile st @ [join_with CHR '','' (take 6 (split_on CHR '','' (strip raw))) @ ''\<newline>''],
        file_candles := file_candles st + 1\<rparr>"
  from Cons.prems have a: "6 \<le> length (split_on CHR '','' (strip raw))"
    and n: "last_timestamp st \<noteq> Some (split_on CHR '','' (strip raw) ! 0)"
    and r: "\<forall>raw\<in>set lines. 6 \<le> length (split_on CHR '','' (strip raw))"
    and d: "distinct_adj (last_timestamp ?st1 # map (\<lambda>raw. Some (split_on CHR '','' (strip raw) ! 0)) lines)"
    by simp_all
  have 1: "stream_line st raw = ?st1" using a n by (rule stream_line_emit)
  have "foldl stream_line st (raw # lines) = foldl stream_line ?st1 lines"
    by (simp only: foldl_Cons 1)
  also note Cons.IH [OF r d]
  finally show ?case by simp
qed

text \<open>
  C10, as stated, fails for two records of which one has the timestamp text of an earlier
  record. The texts 05 and 5 differ and denote the same integer; yet of the bulk rows
  5, 05, 5 the third is not written, and of the streamed lines 5, 5, 05 the second is
  not written.
\<close>

theorem text_duplicate_of_earlier_record:
  "''05'' \<noteq> ''5'' \<and> py_int ''05'' = py_int ''5''
   \<and> convert_timeframe (Some [(''BTCUSDT-1m-2024-01.zip'', ZipFile
        [\<lparr>mname = ''BTCUSDT-1m-2024-01.csv'',
          mdata = ''5,a,h,l,c,v\<newline>05,b,h,l,c,v\<newline>5,c,h,l,c,v\<newline>'', broken = False\<rparr>])])
       = Inr (Success 1 2 [[''5'', ''a'', ''h'', ''l'', ''c'', ''v''],
                           [''05'', ''b'', ''h'', ''l'', ''c'', ''v'']])
   \<and> stream_main (Some [(''BTCUSDT-1s-2024-01.zip'', ZipFile
        [\<lparr>mname = ''BTCUSDT-1s-2024-01.csv'',
          mdata = ''5,a,h,l,c,v\<newline>5,c,h,l,c,v\<newline>05,b,h,l,c,v\<newline>'', broken = False\<rparr>])])
       = Inr \<lparr>outfile = [''timestamp,open,high,low,close,volume\<newline>'', ''5,a,h,l,c,v\<newline>'',
                ''05,b,h,l,c,v\<newline>''],
              total_candles = 2, last_timestamp = Some ''05'', duplicates_skipped = 1,
              file_candles = 2, file_duplicates = 1,
              stdout = [FileDone ''BTCUSDT-1s-2024-01.zip'' 2 2]\<rparr>"
  by code_simp

text \<open>
  C10, amended. Duplicates are found by comparing timestamp texts, never the integers
  they denote. In streaming mode a record is dropped exactly when its timestamp text is
  the text of the last record written, so a run of records in which no timestamp text
  equals the one before it is written whole. In bulk mode, when all timestamps parse, a
  row is written exactly when it is the first row collected with its timestamp text; of
  any two rows collected with different timestamp texts both texts are written, with
  different rows; nothing is removed when all timestamp texts differ; and two rows
  collected with different texts for one integer are both written, in their order.
\<close>

theorem text_identity_of_timestamps:
  "(6 \<le> length (split_on CHR '','' (strip raw)) \<longrightarrow>
      (last_timestamp st \<noteq> Some (split_on CHR '','' (strip raw) ! 0) \<longrightarrow>
         stream_line st raw =
           st\<lparr>last_timestamp := Some (split_on CHR '','' (strip raw) ! 0),
              outfile := outfile st @
                [join_with CHR '','' (take 6 (split_on CHR '','' (strip raw))) @ ''\<newline>''],
              file_candles := file_candles st + 1\<rparr>)
    \<and> (last_timestamp st = Some (split_on CHR '','' (strip raw) ! 0) \<longrightarrow>
         stream_line st raw = st\<lparr>file_duplicates := file_duplicates st + 1\<rparr>))
   \<and> ((\<forall>raw\<in>set lines. 6 \<le> length (split_on CHR '','' (strip raw)))
      \<and> distinct_adj (last_timestamp st # map (\<lambda>raw. Some (split_on CHR '','' (strip raw) ! 0)) lines) \<longrightarrow>
      foldl stream_line st lines =
        st\<lparr>last_timestamp :=
             last (last_timestamp st # map (\<lambda>raw. Some (split_on CHR '','' (strip raw) ! 0)) lines),
           outfile := outfile st @
             map (\<lambda>raw. join_with CHR '','' (take 6 (split_on CHR '','' (strip raw))) @ ''\<newline>'') lines,
           file_candles := file_candles st + length lines\<rparr>)
   \<and> (zs \<noteq> [] \<and> all_rows (collect zs) \<noteq> [] \<and> sort_rows (all_rows (collect zs)) = Some srt \<longrightarrow>
      convert_timeframe (Some zs) =
        Inr (Success (processed_files (collect zs)) (length (remove_duplicates {} [] srt))
              (remove_duplicates {} [] srt))
    \<and> (\<forall>r. r \<in> set (remove_duplicates {} [] srt)
          \<longleftrightarrow> find (\<lambda>x. x ! 0 = r ! 0) (all_rows (collect zs)) = Some r)
    \<and> (\<forall>r1 r2. r1 \<in> set (all_rows (collect zs)) \<and> r2 \<in> set (all_rows (collect zs))
          \<and> r1 ! 0 \<noteq> r2 ! 0 \<longrightarrow>
          (\<exists>k1 k2. k1 \<in> set (remove_duplicates {} [] srt) \<and> k2 \<in> set (remove_duplicates {} [] srt)
             \<and> k1 ! 0 = r1 ! 0 \<and> k2 ! 0 = r2 ! 0 \<and> k1 \<noteq> k2))
    \<and> (distinct (map (\<lambda>x. x ! 0) (all_rows (collect zs))) \<longrightarrow>
          remove_duplicates {} [] srt = srt \<and> length srt = length (all_rows (collect zs))))
   \<and> (zs \<noteq> [] \<and> all_rows (collect zs) = [r1, r2] \<and> r1 ! 0 \<noteq> r2 ! 0
        \<and> py_int (r1 ! 0) = Some i \<and> py_int (r2 ! 0) = Some i \<longrightarrow>
      convert_timeframe (Some zs) = Inr (Success (processed_files (collect zs)) 2 [r1, r2]))"
proof (intro conjI impI allI)
  assume a: "6 \<le> length (split_on CHR '','' (strip raw))"
  {
    assume "last_timestamp st \<noteq> Some (split_on CHR '','' (strip raw) ! 0)"
    with a show "stream_line st raw =
           st\<lparr>last_timestamp := Some (split_on CHR '','' (strip raw) ! 0),
              outfile := outfile st @
                [join_with CHR '','' (take 6 (split_on CHR '','' (strip raw))) @ ''\<newline>''],
              file_candles := file_candles st + 1\<rparr>"
      by (rule stream_line_emit)
  }
  {
    assume "last_timestamp st = Some (split_on CHR '','' (strip raw) ! 0)"
    with a show "stream_line st raw = st\<lparr>file_duplicates := file_duplicates st + 1\<rparr>"
      by (rule stream_line_dup)
  }
next
  assume "(\<forall>raw\<in>set lines. 6 \<le> length (split_on CHR '','' (strip raw)))
      \<and> distinct_adj (last_timestamp st # map (\<lambda>raw. Some (split_on CHR '','' (strip raw) ! 0)) lines)"
  then show "foldl stream_line st lines =
        st\<lparr>last_timestamp :=
             last (last_timestamp st # map (\<lambda>raw. Some (split_on CHR '','' (strip raw) ! 0)) lines),
           outfile := outfile st @
             map (\<lambda>raw. join_with CHR '','' (take 6 (split_on CHR '','' (strip raw))) @ ''\<newline>'') lines,
           file_candles := file_candles st + length lines\<rparr>"
    by (intro stream_lines_all_written) simp_all
next
  assume a: "zs \<noteq> [] \<and> all_rows (collect zs) \<noteq> [] \<and> sort_rows (all_rows (collect zs)) = Some srt"
  then have s: "srt = sort_key (\<lambda>x. the (py_int (x ! 0))) (all_rows (collect zs))"
    by (simp add: sort_rows_Some)
  show "convert_timeframe (Some zs) =
        Inr (Success (processed_files (collect zs)) (length (remove_duplicates {} [] srt))
              (remove_duplicates {} [] srt))"
    using a by (simp add: convert_timeframe_collect sort_and_write_Some)
  have k: "r \<in> set (remove_duplicates {} [] srt)
          \<longleftrightarrow> find (\<lambda>x. x ! 0 = r ! 0) (all_rows (collect zs)) = Some r" for r
    unfolding s by (rule remove_duplicates_kept_iff)
  {
    fix r
    show "r \<in> set (remove_duplicates {} [] srt)
          \<longleftrightarrow> find (\<lambda>x. x ! 0 = r ! 0) (all_rows (collect zs)) = Some r"
      by (rule k)
  }
  {
    fix r1 r2
    assume b: "r1 \<in> set (all_rows (collect zs)) \<and> r2 \<in> set (all_rows (collect zs))
          \<and> r1 ! 0 \<noteq> r2 ! 0"
    have e: "(\<lambda>x. x ! 0) ` set (remove_duplicates {} [] srt) = (\<lambda>x. x ! 0) ` set (all_rows (collect zs))"
      using remove_duplicates_set [of "{}" srt] by (simp add: s)
    from b have "r1 ! 0 \<in> (\<lambda>x. x ! 0) ` set (all_rows (collect zs))"
      "r2 ! 0 \<in> (\<lambda>x. x ! 0) ` set (all_rows (collect zs))" by simp_all
    then obtain k1 k2 where "k1 \<in> set (remove_duplicates {} [] srt)" "k1 ! 0 = r1 ! 0"
      "k2 \<in> set (remove_duplicates {} [] srt)" "k2 ! 0 = r2 ! 0"
      unfolding e [symmetric] by auto
    moreover from this b have "k1 \<noteq> k2" by auto
    ultimately show "\<exists>k1 k2. k1 \<in> set (remove_duplicates {} [] srt) \<and> k2 \<in> set (remove_duplicates {} [] srt)
             \<and> k1 ! 0 = r1 ! 0 \<and> k2 ! 0 = r2 ! 0 \<and> k1 \<noteq> k2"
      by blast
  }
  {
    assume c: "distinct (map (\<lambda>x. x ! 0) (all_rows (collect zs)))"
    show "length srt = length (all_rows (collect zs))" by (simp add: s)
    have "distinct (all_rows (collect zs))" "inj_on (\<lambda>x. x ! 0) (set (all_rows (collect zs)))"
      using c by (simp_all add: distinct_map)
    then have "distinct (map (\<lambda>x. x ! 0) srt)" by (simp add: s distinct_map)
    then show "remove_duplicates {} [] srt = srt" by (rule remove_duplicates_none) simp
  }
next
  assume b: "zs \<noteq> [] \<and> all_rows (collect zs) = [r1, r2] \<and> r1 ! 0 \<noteq> r2 ! 0
        \<and> py_int (r1 ! 0) = Some i \<and> py_int (r2 ! 0) = Some i"
  then have s: "sort_rows [r1, r2] = Some [r1, r2]" by (simp add: sort_rows_def)
  have u: "remove_duplicates {} [] [r1, r2] = [r1, r2]" using b by (auto simp: Let_def)
  from sort_and_write_Some [OF s, of "processed_files (collect zs)"]
  have "sort_and_write (processed_files (collect zs)) [r1, r2]
      = Inr (Success (processed_files (collect zs)) 2 [r1, r2])"
    by (simp only: u) simp
  with b show "convert_timeframe (Some zs) = Inr (Success (processed_files (collect zs)) 2 [r1, r2])"
    by (simp add: convert_timeframe_collect)
qed


theorem text_identity_of_timestamps_witness:
  "foldl stream_line stream_init
      [''05,o,h,l,c,v\<newline>'', ''5,o,h,l,c,v\<newline>'', ''1735689600000,o,h,l,c,v\<newline>'',
       ''1735689600000000,o,h,l,c,v\<newline>'']
     = stream_init\<lparr>last_timestamp := Some ''1735689600000000'',
         outfile := outfile stream_init @
           [''05,o,h,l,c,v\<newline>'', ''5,o,h,l,c,v\<newline>'', ''1735689600000,o,h,l,c,v\<newline>'',
            ''1735689600000000,o,h,l,c,v\<newline>''],
         file_candles := 4\<rparr>
   \<and> py_int ''05'' = Some 5 \<and> py_int ''5'' = Some 5
   \<and> convert_timeframe (Some [(''BTCUSDT-1m-2024-01.zip'', ZipFile
        [\<lparr>mname = ''BTCUSDT-1m-2024-01.csv'',
          mdata = ''05,o,h,l,c,v\<newline>5,o,h,l,c,v\<newline>'', broken = False\<rparr>])])
     = Inr (Success 1 2 [[''05'', ''o'', ''h'', ''l'', ''c'', ''v''],
                         [''5'', ''o'', ''h'', ''l'', ''c'', ''v'']])"
proof -
  let ?lines = "[''05,o,h,l,c,v\<newline>'', ''5,o,h,l,c,v\<newline>'', ''1735689600000,o,h,l,c,v\<newline>'',
       ''1735689600000000,o,h,l,c,v\<newline>'']"
  let ?zs = "[(''BTCUSDT-1m-2024-01.zip'', ZipFile
        [\<lparr>mname = ''BTCUSDT-1m-2024-01.csv'',
          mdata = ''05,o,h,l,c,v\<newline>5,o,h,l,c,v\<newline>'', broken = False\<rparr>])]"
  let ?r1 = "[''05'', ''o'', ''h'', ''l'', ''c'', ''v'']"
  let ?r2 = "[''5'', ''o'', ''h'', ''l'', ''c'', ''v'']"
  note t = text_identity_of_timestamps [where st = stream_init and lines = ?lines and zs = ?zs
      and ?r1.0 = ?r1 and ?r2.0 = ?r2 and i = 5]
  have p: "strip ''05,o,h,l,c,v\<newline>'' = ''05,o,h,l,c,v''" "strip ''5,o,h,l,c,v\<newline>'' = ''5,o,h,l,c,v''"
    "strip ''1735689600000,o,h,l,c,v\<newline>'' = ''1735689600000,o,h,l,c,v''"
    "strip ''1735689600000000,o,h,l,c,v\<newline>'' = ''1735689600000000,o,h,l,c,v''"
    by (simp_all add: strip_def is_space_def)
  have h1: "(\<forall>raw\<in>set ?lines. 6 \<le> length (split_on CHR '','' (strip raw)))
      \<and> distinct_adj (last_timestamp stream_init
            # map (\<lambda>raw. Some (split_on CHR '','' (strip raw) ! 0)) ?lines)"
    by (simp add: p stream_init_def Let_def)
  from mp [OF t [THEN conjunct2, THEN conjunct1] h1]
  have 1: "foldl stream_line stream_init ?lines
     = stream_init\<lparr>last_timestamp := Some ''1735689600000000'',
         outfile := outfile stream_init @ ?lines, file_candles := 4\<rparr>"
    by (simp add: p stream_init_def Let_def)
  have c: "collect ?zs = \<lparr>all_rows = [?r1, ?r2], processed_files = 1, stderr = []\<rparr>"
    by code_simp
  have h2: "?zs \<noteq> [] \<and> all_rows (collect ?zs) = [?r1, ?r2] \<and> ?r1 ! 0 \<noteq> ?r2 ! 0
        \<and> py_int (?r1 ! 0) = Some 5 \<and> py_int (?r2 ! 0) = Some 5"
    by (simp add: c py_int_samples)
  from mp [OF t [THEN conjunct2, THEN conjunct2, THEN conjunct2] h2]
  have 2: "convert_timeframe (Some ?zs) = Inr (Success 1 2 [?r1, ?r2])"
    by (simp add: c)
  from 1 2 show ?thesis by (simp add: py_int_samples)
qed

end
